theory Spec2Isabelle
  imports Main "HOL-Library.AList" "HOL-Library.Sublist"
begin

section \<open>Exceptions and exits\<close>

text \<open>
  The script never catches an exception.  Every Python exception that one of its
  statements can raise is a value of \<open>exn\<close>; \<open>sys.exit(n)\<close> and
  \<open>parser.error\<close> leave through \<open>SystemExit n\<close>.
\<close>

datatype exn =
    NoSectionError string
  | NoOptionError string string
  | ParsingError string
  | JSONDecodeError string
  | KeyError string
  | TypeError
  | FileNotFoundError "string list"
  | FileExistsError "string list"
  | NotADirectoryError "string list"
  | IsADirectoryError "string list"
  | OSError string "string list"
  | SameFileError "string list"
  | ShutilError "(string list \<times> exn) list"

datatype abort = Raised exn | SystemExit int

definition ebind :: "'e + 'a \<Rightarrow> ('a \<Rightarrow> 'e + 'b) \<Rightarrow> 'e + 'b" where
  "ebind m f = (case m of Inl e \<Rightarrow> Inl e | Inr x \<Rightarrow> f x)"

section \<open>Strings\<close>

text \<open>\<open>str.lower\<close> on ASCII text, \<open>str.startswith\<close>.\<close>

definition lower_char :: "char \<Rightarrow> char" where
  "lower_char c =
     (case map_of (zip ''ABCDEFGHIJKLMNOPQRSTUVWXYZ'' ''abcdefghijklmnopqrstuvwxyz'') c of
        Some l \<Rightarrow> l
      | None \<Rightarrow> c)"

definition lower :: "string \<Rightarrow> string" where
  "lower s = map lower_char s"

definition startswith :: "string \<Rightarrow> string \<Rightarrow> bool" where
  "startswith s p = (take (length p) s = p)"

definition endswith :: "string \<Rightarrow> string \<Rightarrow> bool" where
  "endswith s p = (length p \<le> length s \<and> drop (length s - length p) s = p)"

text \<open>\<open>" ".join(cmd)\<close>\<close>

fun join_words :: "string list \<Rightarrow> string" where
  "join_words [] = []"
| "join_words [x] = x"
| "join_words (x # y # ys) = x @ '' '' @ join_words (y # ys)"

section \<open>RawConfigParser\<close>

text \<open>
  The parser object holds \<open>_defaults\<close> (the options of a \<open>[DEFAULT]\<close> section) and
  \<open>_sections\<close>, an ordered dictionary from section names to ordered dictionaries of
  options.  Both are association lists here; a key is looked up with \<open>map_of\<close>, stored
  with \<open>AList.update\<close> (in place, or appended when new) and removed with
  \<open>AList.delete\<close>.
\<close>

type_synonym options = "(string \<times> string) list"

record config =
  defaults :: options
  sections :: "(string \<times> options) list"

definition empty_config :: config where
  "empty_config = \<lparr> defaults = [], sections = [] \<rparr>"

definition optionxform :: "string \<Rightarrow> string" where
  "optionxform optionstr = lower optionstr"

text \<open>\<open>RawConfigParser.sections()\<close>: the section names, without DEFAULT.\<close>

definition cfg_sections :: "config \<Rightarrow> string list" where
  "cfg_sections ti = map fst (sections ti)"

text \<open>
  \<open>RawConfigParser.set(section, option, value)\<close>: an empty or DEFAULT section name
  addresses the defaults, any other name must be an existing section.
\<close>

definition cfg_set :: "string \<Rightarrow> string \<Rightarrow> string \<Rightarrow> config \<Rightarrow> exn + config" where
  "cfg_set section option v ti =
     (if section = [] \<or> section = ''DEFAULT''
      then Inr (ti\<lparr>defaults := AList.update (optionxform option) v (defaults ti)\<rparr>)
      else (case map_of (sections ti) section of
              None \<Rightarrow> Inl (NoSectionError section)
            | Some sectdict \<Rightarrow>
                Inr (ti\<lparr>sections :=
                  AList.update section (AList.update (optionxform option) v sectdict)
                    (sections ti)\<rparr>)))"

text \<open>
  \<open>RawConfigParser.get(section, option)\<close>: the section's own option, else the default
  of that name.
\<close>

definition cfg_get :: "string \<Rightarrow> string \<Rightarrow> config \<Rightarrow> exn + string" where
  "cfg_get section option ti =
     (let opt = optionxform option in
      case map_of (sections ti) section of
        None \<Rightarrow>
          (if section \<noteq> ''DEFAULT'' then Inl (NoSectionError section)
           else (case map_of (defaults ti) opt of
                   Some v \<Rightarrow> Inr v
                 | None \<Rightarrow> Inl (NoOptionError option section)))
      | Some sectdict \<Rightarrow>
          (case map_of sectdict opt of
             Some v \<Rightarrow> Inr v
           | None \<Rightarrow>
               (case map_of (defaults ti) opt of
                  Some v \<Rightarrow> Inr v
                | None \<Rightarrow> Inl (NoOptionError option section))))"

text \<open>
  \<open>RawConfigParser.remove_section(section)\<close> deletes the section when it exists and
  reports whether it did; the script ignores the report.
\<close>

definition remove_section :: "string \<Rightarrow> config \<Rightarrow> config" where
  "remove_section section ti = ti\<lparr>sections := AList.delete section (sections ti)\<rparr>"

section \<open>The tree-info editors\<close>

text \<open>\<open>_tweak_paths(ti, variant, platforms)\<close>, lines 56 to 71.\<close>

definition tweak_paths :: "config \<Rightarrow> string \<Rightarrow> bool \<Rightarrow> exn + config" where
  "tweak_paths ti variant platforms =
     ebind (cfg_set ''general'' ''variants'' variant ti) (\<lambda>ti.
     ebind (cfg_set ''general'' ''variant'' variant ti) (\<lambda>ti.
     ebind (cfg_set ''general'' ''repository'' ''.'' ti) (\<lambda>ti.
     ebind (cfg_set ''general'' ''packagedir'' ''Packages'' ti) (\<lambda>ti.
     ebind (cfg_set ''tree'' ''variants'' variant ti) (\<lambda>ti.
     ebind (cfg_set (''variant-'' @ variant) ''packages'' ''Packages'' ti) (\<lambda>ti.
     ebind (cfg_set (''variant-'' @ variant) ''repository'' ''.'' ti) (\<lambda>ti.
     ebind (if platforms
            then ebind (cfg_get ''general'' ''arch'' ti) (\<lambda>arch.
                 ebind (cfg_set ''general'' ''platforms'' arch ti) (\<lambda>ti.
                 cfg_set ''tree'' ''platforms'' arch ti))
            else Inr ti) (\<lambda>ti.
     Inr (remove_section ''media'' ti)))))))))"

text \<open>
  The edits of \<open>tweak_baseos_treeinfo\<close> between reading the file and writing it
  (lines 78 to 80).
\<close>

definition baseos_edits :: "config \<Rightarrow> exn + config" where
  "baseos_edits ti =
     ebind (tweak_paths ti ''BaseOS'' False) (\<lambda>ti.
     Inr (remove_section ''variant-AppStream'' ti))"

text \<open>
  The edits of \<open>tweak_appstream_treeinfo\<close> (lines 90 to 99): the list of sections to
  remove grows by every section whose name starts with \<open>images-\<close>, then each listed
  section is removed in turn.
\<close>

definition images_sections :: "config \<Rightarrow> string list" where
  "images_sections ti = filter (\<lambda>section. startswith section ''images-'') (cfg_sections ti)"

definition appstream_edits :: "config \<Rightarrow> exn + config" where
  "appstream_edits ti =
     ebind (tweak_paths ti ''AppStream'' True) (\<lambda>ti.
     (let sections_to_remove = [''variant-BaseOS'', ''checksums'', ''stage2''] @ images_sections ti
      in Inr (fold remove_section sections_to_remove ti)))"


section \<open>The extra-files manifest\<close>

text \<open>What \<open>json.load\<close> returns.  An object is a dictionary, so its keys are distinct.\<close>

datatype json =
    JNull
  | JBool bool
  | JNum int
  | JStr string
  | JArr "json list"
  | JObj "(string \<times> json) list"

text \<open>\<open>obj[key]\<close> for a string key: only a dictionary can be indexed by a string.\<close>

definition subscript :: "json \<Rightarrow> string \<Rightarrow> exn + json" where
  "subscript obj key =
     (case obj of
        JObj kvs \<Rightarrow> (case map_of kvs key of None \<Rightarrow> Inl (KeyError key) | Some v \<Rightarrow> Inr v)
      | _ \<Rightarrow> Inl TypeError)"

text \<open>
  \<open>for item in x\<close>: a list yields its items, a dictionary its keys, a string its
  characters; nothing else is iterable.
\<close>

definition iterate :: "json \<Rightarrow> exn + json list" where
  "iterate x =
     (case x of
        JArr xs \<Rightarrow> Inr xs
      | JObj kvs \<Rightarrow> Inr (map (\<lambda>kv. JStr (fst kv)) kvs)
      | JStr s \<Rightarrow> Inr (map (\<lambda>c. JStr [c]) s)
      | _ \<Rightarrow> Inl TypeError)"

text \<open>\<open>[item["file"] for item in ...]\<close>\<close>

fun file_values :: "json list \<Rightarrow> exn + json list" where
  "file_values [] = Inr []"
| "file_values (item # items) =
     ebind (subscript item ''file'') (\<lambda>f.
     ebind (file_values items) (\<lambda>fs. Inr (f # fs)))"

text \<open>Lines 147 and 148 of \<open>main\<close>, from the loaded manifest to \<open>extra_files\<close>.\<close>

definition extra_files_of :: "json \<Rightarrow> exn + json list" where
  "extra_files_of extra_files_data =
     ebind (subscript extra_files_data ''data'') (\<lambda>data.
     ebind (iterate data) (\<lambda>items.
     ebind (file_values items) (\<lambda>extra_files.
     Inr (JStr ''extra_files.json'' # extra_files))))"

section \<open>Paths\<close>

text \<open>
  Paths are strings, as in the script.  \<open>join\<close> is \<open>os.path.join\<close> of two
  arguments and \<open>basename\<close> is \<open>os.path.basename\<close>.  The file system resolves a path
  through \<open>components\<close>: its non-empty components other than \<open>.\<close>, read from the root
  of the tree (the working directory is the root; \<open>..\<close> and symbolic links are not
  resolved).
\<close>

fun split_slash :: "string \<Rightarrow> string list" where
  "split_slash [] = [[]]"
| "split_slash (c # cs) =
     (if c = CHR ''/'' then [] # split_slash cs
      else (case split_slash cs of [] \<Rightarrow> [[c]] | w # ws \<Rightarrow> (c # w) # ws))"

definition components :: "string \<Rightarrow> string list" where
  "components path = filter (\<lambda>c. c \<noteq> [] \<and> c \<noteq> ''.'') (split_slash path)"

definition join :: "string \<Rightarrow> string \<Rightarrow> string" where
  "join a b =
     (if startswith b ''/'' then b
      else if a = [] \<or> endswith a ''/'' then a @ b
      else a @ ''/'' @ b)"

definition basename :: "string \<Rightarrow> string" where
  "basename p = last (split_slash p)"

section \<open>The file system\<close>

text \<open>
  A file is modelled by what it holds once parsed: a tree-info document, a JSON value,
  or any other text.  A directory is the ordered list of its entries.
\<close>

datatype content = Text string | Json json | Ini config

datatype node = File content | Dir "(string \<times> node) list"

fun lookup :: "node \<Rightarrow> string list \<Rightarrow> node option" where
  "lookup n [] = Some n"
| "lookup (File c) (name # names) = None"
| "lookup (Dir es) (name # names) =
     (case map_of es name of None \<Rightarrow> None | Some n \<Rightarrow> lookup n names)"

text \<open>
  \<open>store r p n\<close> puts \<open>n\<close> at path \<open>p\<close>, replacing what is there or adding an entry
  to the parent directory; without a parent directory nothing changes.
\<close>

fun store :: "node \<Rightarrow> string list \<Rightarrow> node \<Rightarrow> node" where
  "store r [] n = n"
| "store (File c) (name # names) n = File c"
| "store (Dir es) (name # names) n =
     (case map_of es name of
        None \<Rightarrow> (if names = [] then Dir (es @ [(name, n)]) else Dir es)
      | Some child \<Rightarrow> Dir (AList.update name (store child names n) es))"

fun remove :: "node \<Rightarrow> string list \<Rightarrow> node" where
  "remove r [] = r"
| "remove (File c) (name # names) = File c"
| "remove (Dir es) (name # names) =
     (if names = [] then Dir (AList.delete name es)
      else (case map_of es name of
              None \<Rightarrow> Dir es
            | Some child \<Rightarrow> Dir (AList.update name (remove child names) es)))"

definition exists :: "node \<Rightarrow> string list \<Rightarrow> bool" where
  "exists r p = (lookup r p \<noteq> None)"

definition isdir :: "node \<Rightarrow> string list \<Rightarrow> bool" where
  "isdir r p = (case lookup r p of Some (Dir es) \<Rightarrow> True | _ \<Rightarrow> False)"

definition listdir :: "node \<Rightarrow> string list \<Rightarrow> exn + string list" where
  "listdir r p =
     (case lookup r p of
        None \<Rightarrow> Inl (FileNotFoundError p)
      | Some (File c) \<Rightarrow> Inl (NotADirectoryError p)
      | Some (Dir es) \<Rightarrow> Inr (map fst es))"

definition read_file :: "node \<Rightarrow> string list \<Rightarrow> exn + content" where
  "read_file r p =
     (case lookup r p of
        None \<Rightarrow> Inl (FileNotFoundError p)
      | Some (Dir es) \<Rightarrow> Inl (IsADirectoryError p)
      | Some (File c) \<Rightarrow> Inr c)"

text \<open>Opening a path for writing and writing \<open>c\<close>: the file is created or replaced.\<close>

definition write_file :: "node \<Rightarrow> string list \<Rightarrow> content \<Rightarrow> exn + node" where
  "write_file r p c =
     (case lookup r p of
        Some (Dir es) \<Rightarrow> Inl (IsADirectoryError p)
      | Some (File old) \<Rightarrow> Inr (store r p (File c))
      | None \<Rightarrow>
          (case lookup r (butlast p) of
             Some (Dir es) \<Rightarrow> Inr (store r p (File c))
           | Some (File x) \<Rightarrow> Inl (NotADirectoryError p)
           | None \<Rightarrow> Inl (FileNotFoundError p)))"

definition mkdir :: "node \<Rightarrow> string list \<Rightarrow> exn + node" where
  "mkdir r p =
     (case lookup r p of
        Some n \<Rightarrow> Inl (FileExistsError p)
      | None \<Rightarrow>
          (case lookup r (butlast p) of
             Some (Dir es) \<Rightarrow> Inr (store r p (Dir []))
           | Some (File x) \<Rightarrow> Inl (NotADirectoryError p)
           | None \<Rightarrow> Inl (FileNotFoundError p)))"

text \<open>
  \<open>os.makedirs(name)\<close>: when the parent (\<open>head\<close>) is missing it is created first, by
  the same function, an already existing parent being no error there; then \<open>name\<close>
  itself is created.  The argument is the path reversed, so that the parent is the tail.
\<close>

fun makedirs_rev :: "node \<Rightarrow> string list \<Rightarrow> exn + node" where
  "makedirs_rev r [] = mkdir r []"
| "makedirs_rev r (tail # rhead) =
     ebind (if \<not> exists r (rev rhead)
            then (case makedirs_rev r rhead of
                    Inl (FileExistsError p) \<Rightarrow> Inr r
                  | other \<Rightarrow> other)
            else Inr r) (\<lambda>r1.
     mkdir r1 (rev rhead @ [tail]))"

definition makedirs :: "node \<Rightarrow> string list \<Rightarrow> exn + node" where
  "makedirs r p = makedirs_rev r (rev p)"

section \<open>The machine\<close>

text \<open>
  What the script can observe and change.  \<open>root\<close> is the directory tree as the
  script sees it, with every mounted image in place of the directory it covers;
  \<open>mounts\<close> keeps, for each mount point, the directory the image covers.  An ISO 9660
  mount is read-only.  \<open>media\<close> gives the tree inside each image file that the loop
  driver can mount, \<open>busy\<close> the number of coming \<open>umount\<close> calls that still find the
  target busy, \<open>tmpdir\<close> and \<open>tmp_names\<close> the directory and the candidate names of
  \<open>tempfile\<close>.  \<open>trace\<close> records, in order, the processes run with their exit
  codes, the sleeps, the lines printed to standard error and the directory removals
  asked for.
\<close>

datatype event = Exec "string list" int | Sleep nat | Stderr string | Rmdir string

record world =
  root :: node
  mounts :: "(string list \<times> node) list"
  media :: "(string \<times> node) list"
  busy :: nat
  tmpdir :: string
  tmp_names :: "string list"
  trace :: "event list"

type_synonym 'a prog = "world \<Rightarrow> (abort + 'a) \<times> world"

definition bind :: "'a prog \<Rightarrow> ('a \<Rightarrow> 'b prog) \<Rightarrow> 'b prog" where
  "bind m f w = (case m w of (Inl e, w1) \<Rightarrow> (Inl e, w1) | (Inr x, w1) \<Rightarrow> f x w1)"

text \<open>A \<open>for\<close> loop whose body may raise.\<close>

fun for_each :: "'a list \<Rightarrow> ('a \<Rightarrow> unit prog) \<Rightarrow> unit prog" where
  "for_each [] body w = (Inr (), w)"
| "for_each (x # xs) body w =
     (case body x w of (Inl e, w1) \<Rightarrow> (Inl e, w1) | (Inr u, w1) \<Rightarrow> for_each xs body w1)"

definition log :: "event list \<Rightarrow> world \<Rightarrow> world" where
  "log evs w = w\<lparr>trace := trace w @ evs\<rparr>"

definition readonly :: "world \<Rightarrow> string list \<Rightarrow> bool" where
  "readonly w p = list_ex (\<lambda>m. prefix (fst m) p) (mounts w)"

text \<open>\<open>os.path.exists\<close> and \<open>os.path.isdir\<close>; the empty path names nothing.\<close>

definition path_exists :: "world \<Rightarrow> string \<Rightarrow> bool" where
  "path_exists w path = (path \<noteq> [] \<and> exists (root w) (components path))"

definition path_isdir :: "world \<Rightarrow> string \<Rightarrow> bool" where
  "path_isdir w path = (path \<noteq> [] \<and> isdir (root w) (components path))"

text \<open>A change of the tree at \<open>p\<close>, refused on a read-only mount.\<close>

definition writing :: "string list \<Rightarrow> exn + node \<Rightarrow> unit prog" where
  "writing p change w =
     (if readonly w p then (Inl (Raised (OSError ''EROFS'' p)), w)
      else (case change of
              Inl e \<Rightarrow> (Inl (Raised e), w)
            | Inr r \<Rightarrow> (Inr (), w\<lparr>root := r\<rparr>)))"

text \<open>\<open>time.sleep\<close>\<close>

definition sleep :: "nat \<Rightarrow> unit prog" where
  "sleep secs w = (Inr (), log [Sleep secs] w)"

text \<open>
  \<open>os.rmdir\<close>: a mount point is busy; otherwise the directory must exist and be
  empty.
\<close>

definition os_rmdir :: "string \<Rightarrow> unit prog" where
  "os_rmdir path w =
     (let p = components path; w1 = log [Rmdir path] w in
      if map_of (mounts w1) p \<noteq> None then (Inl (Raised (OSError ''EBUSY'' p)), w1)
      else writing p
        (case lookup (root w1) p of
           None \<Rightarrow> Inl (FileNotFoundError p)
         | Some (File c) \<Rightarrow> Inl (NotADirectoryError p)
         | Some (Dir []) \<Rightarrow> Inr (remove (root w1) p)
         | Some (Dir (e # es)) \<Rightarrow> Inl (OSError ''ENOTEMPTY'' p)) w1)"

text \<open>
  \<open>tempfile.mkdtemp(suffix=...)\<close>: the first candidate name that is free in the
  temporary directory becomes a new, empty directory; its path is returned.
\<close>

fun mkdtemp_try :: "string \<Rightarrow> string list \<Rightarrow> string prog" where
  "mkdtemp_try sfx [] w = (Inl (Raised (FileExistsError [])), w)"
| "mkdtemp_try sfx (name # names) w =
     (let file = join (tmpdir w) (''tmp'' @ name @ sfx); w1 = w\<lparr>tmp_names := names\<rparr> in
      case mkdir (root w1) (components file) of
        Inl (FileExistsError p) \<Rightarrow> mkdtemp_try sfx names w1
      | change \<Rightarrow>
          (case writing (components file) change w1 of
             (Inl e, w2) \<Rightarrow> (Inl e, w2)
           | (Inr u, w2) \<Rightarrow> (Inr file, w2)))"

definition mkdtemp :: "string \<Rightarrow> string prog" where
  "mkdtemp sfx w = mkdtemp_try sfx (tmp_names w) w"

section \<open>External processes\<close>

text \<open>
  A process is given its argument vector and the machine; it leaves an exit code, its
  merged output and the machine as it changed it.
\<close>

type_synonym proc = "string list \<Rightarrow> world \<Rightarrow> (int \<times> string) \<times> world"

text \<open>
  The three programs the script runs.  \<open>mount -o loop\<close> needs a mountable image and
  an existing directory, and puts the image's tree over it.  \<open>umount\<close> fails while the
  target is busy (or is no mount point) and otherwise uncovers the directory.
  \<open>chmod u+w -R\<close> needs an existing path; permissions are not modelled.  A process
  leaves its argument vector and exit code in the trace.
\<close>

definition mount_cmd :: "string \<Rightarrow> string \<Rightarrow> world \<Rightarrow> (int \<times> string) \<times> world" where
  "mount_cmd isofile mount_point w =
     (let mp = components mount_point in
      case (map_of (media w) isofile, lookup (root w) mp) of
        (Some (Dir tree), Some (Dir covered)) \<Rightarrow>
          ((0, []), w\<lparr>root := store (root w) mp (Dir tree),
                      mounts := (mp, Dir covered) # mounts w\<rparr>)
      | other \<Rightarrow> ((32, ''mount: failed to set up loop device''), w))"

definition umount_cmd :: "string \<Rightarrow> world \<Rightarrow> (int \<times> string) \<times> world" where
  "umount_cmd mount_point w =
     (let mp = components mount_point in
      case map_of (mounts w) mp of
        None \<Rightarrow> ((32, ''umount: not mounted''), w)
      | Some covered \<Rightarrow>
          (if 0 < busy w then ((32, ''umount: target is busy''), w\<lparr>busy := busy w - 1\<rparr>)
           else ((0, []), w\<lparr>root := store (root w) mp covered,
                             mounts := AList.delete mp (mounts w)\<rparr>)))"

definition chmod_cmd :: "string \<Rightarrow> world \<Rightarrow> (int \<times> string) \<times> world" where
  "chmod_cmd path w =
     (if path_exists w path then ((0, []), w)
      else ((1, ''chmod: cannot access''), w))"

definition system :: proc where
  "system cmd w =
     (case (if length cmd = 5 \<and> take 3 cmd = [''mount'', ''-o'', ''loop'']
            then mount_cmd (cmd ! 3) (cmd ! 4) w
            else if length cmd = 2 \<and> take 1 cmd = [''umount'']
            then umount_cmd (cmd ! 1) w
            else if length cmd = 4 \<and> take 3 cmd = [''chmod'', ''u+w'', ''-R'']
            then chmod_cmd (cmd ! 3) w
            else ((127, ''command not found''), w))
      of ((returncode, out), w1) \<Rightarrow> ((returncode, out), log [Exec cmd returncode] w1))"

section \<open>The command runner\<close>

text \<open>
  \<open>run(cmd, can_fail)\<close>, lines 20 to 33, over any process \<open>px\<close>.  The two
  \<open>print\<close> calls write the command line and the captured output to standard error.
\<close>

definition run :: "proc \<Rightarrow> string list \<Rightarrow> bool \<Rightarrow> bool prog" where
  "run px cmd can_fail w =
     (case px cmd w of
        ((returncode, stdout), w1) \<Rightarrow>
          if returncode = 0 then (Inr True, w1)
          else if can_fail then (Inr False, w1)
          else (Inl (SystemExit 1),
                log [Stderr (''Executed command '' @ [CHR 0x27] @ join_words cmd @ [CHR 0x27]
                             @ '' failed with following output:''),
                     Stderr stdout] w1))"

section \<open>The scoped mount\<close>

text \<open>
  The \<open>for timeout in range(5)\<close> loop of the \<open>finally\<close> block, lines 47 to 52, over
  the values of \<open>timeout\<close> still to come.
\<close>

fun umount_loop :: "proc \<Rightarrow> string \<Rightarrow> nat list \<Rightarrow> unit prog" where
  "umount_loop px mount_point [] w = (Inr (), w)"
| "umount_loop px mount_point (timeout # timeouts) w =
     (case run px [''umount'', mount_point] True w of
        (Inl e, w1) \<Rightarrow> (Inl e, w1)
      | (Inr True, w1) \<Rightarrow> (Inr (), w1)
      | (Inr False, w1) \<Rightarrow>
          (case sleep timeout w1 of
             (Inl e, w2) \<Rightarrow> (Inl e, w2)
           | (Inr u, w2) \<Rightarrow> umount_loop px mount_point timeouts w2))"

text \<open>The whole \<open>finally\<close> block, lines 47 to 53.\<close>

definition teardown :: "proc \<Rightarrow> string \<Rightarrow> unit prog" where
  "teardown px mount_point =
     bind (umount_loop px mount_point [0..<5]) (\<lambda>u. os_rmdir mount_point)"

text \<open>
  \<open>with mount_iso(image) as mount_point: body\<close>, lines 36 to 53.  The body is entered
  after \<open>mkdtemp\<close> and \<open>mount\<close>; however it ends, the \<open>finally\<close> block runs, and the
  body's result stands unless the block itself raises.
\<close>

definition mount_iso :: "proc \<Rightarrow> string \<Rightarrow> (string \<Rightarrow> 'a prog) \<Rightarrow> 'a prog" where
  "mount_iso px isofile body w =
     (case mkdtemp ''.rhel-8-iso'' w of
        (Inl e, w1) \<Rightarrow> (Inl e, w1)
      | (Inr mount_point, w1) \<Rightarrow>
          (case run px [''mount'', ''-o'', ''loop'', isofile, mount_point] False w1 of
             (Inl e, w2) \<Rightarrow> (Inl e, w2)
           | (Inr mounted, w2) \<Rightarrow>
               (case body mount_point w2 of
                  (result, w3) \<Rightarrow>
                    (case teardown px mount_point w3 of
                       (Inl e, w4) \<Rightarrow> (Inl e, w4)
                     | (Inr u, w4) \<Rightarrow> (result, w4)))))"

section \<open>Copying\<close>

definition ret :: "'a \<Rightarrow> 'a prog" where
  "ret x w = (Inr x, w)"

definition lift :: "exn + 'a \<Rightarrow> 'a prog" where
  "lift r w = (case r of Inl e \<Rightarrow> (Inl (Raised e), w) | Inr x \<Rightarrow> (Inr x, w))"

definition os_listdir :: "string \<Rightarrow> string list prog" where
  "os_listdir path w = lift (listdir (root w) (components path)) w"

text \<open>The entries of a directory with what each one is, as \<open>os.scandir\<close> lists them.\<close>

definition scandir :: "node \<Rightarrow> string list \<Rightarrow> exn + (string \<times> node) list" where
  "scandir r p =
     (case lookup r p of
        None \<Rightarrow> Inl (FileNotFoundError p)
      | Some (File c) \<Rightarrow> Inl (NotADirectoryError p)
      | Some (Dir es) \<Rightarrow> Inr es)"

text \<open>
  \<open>shutil.copy(src, dst)\<close>: into a directory under the source's base name, else to the
  path itself.
\<close>

definition shutil_copy :: "string \<Rightarrow> string \<Rightarrow> unit prog" where
  "shutil_copy src dst w =
     (let dst1 = (if path_isdir w dst then join dst (basename src) else dst) in
      if components src = components dst1 \<and> exists (root w) (components src)
      then (Inl (Raised (SameFileError (components src))), w)
      else (case read_file (root w) (components src) of
              Inl e \<Rightarrow> (Inl (Raised e), w)
            | Inr c \<Rightarrow> writing (components dst1) (write_file (root w) (components dst1) c) w))"

text \<open>
  The loop of \<open>shutil.copytree\<close> over the entries of one source directory, \<open>dst\<close>
  being the directory already made for them.  \<open>ignored_names\<close> is what \<open>ignore\<close>
  returned for this directory.  A subdirectory is made with \<open>os.makedirs\<close> and copied
  by the same loop, a file is copied to its name; what fails is collected with its path
  and the loop goes on.  The source entries are those listed when the copy began: the
  copy writes below \<open>dst\<close> only, so this is the tree the library reads whenever \<open>dst\<close>
  does not lie inside the source.
\<close>

fun copy_entries ::
  "(string list \<Rightarrow> string list \<Rightarrow> string list) \<Rightarrow> string list \<Rightarrow> string list \<Rightarrow>
   (string \<times> node) list \<Rightarrow> string list \<Rightarrow> node \<Rightarrow> (string list \<times> exn) list \<times> node" where
  "copy_entries ignore ignored_names src [] dst r = ([], r)"
| "copy_entries ignore ignored_names src ((name, n) # entries) dst r =
     (if name \<in> set ignored_names then copy_entries ignore ignored_names src entries dst r
      else
        (case
           (case n of
              Dir sub \<Rightarrow>
                (case makedirs r (dst @ [name]) of
                   Inl why \<Rightarrow> ([(dst @ [name], why)], r)
                 | Inr r1 \<Rightarrow>
                     copy_entries ignore (ignore (src @ [name]) (map fst sub)) (src @ [name])
                       sub (dst @ [name]) r1)
            | File c \<Rightarrow>
                (case write_file r (dst @ [name]) c of
                   Inl why \<Rightarrow> ([(dst @ [name], why)], r)
                 | Inr r1 \<Rightarrow> ([], r1)))
         of (errors, r2) \<Rightarrow>
           (case copy_entries ignore ignored_names src entries dst r2 of
              (rest, r3) \<Rightarrow> (errors @ rest, r3))))"

text \<open>
  \<open>shutil.copytree(src, dst, ignore=ignore)\<close>: list the source, make the destination
  (which must not exist), copy the entries, and raise the collected errors if any.
\<close>

definition shutil_copytree ::
  "(string list \<Rightarrow> string list \<Rightarrow> string list) \<Rightarrow> string \<Rightarrow> string \<Rightarrow> unit prog" where
  "shutil_copytree ignore src dst w =
     (case scandir (root w) (components src) of
        Inl e \<Rightarrow> (Inl (Raised e), w)
      | Inr entries \<Rightarrow>
          (case writing (components dst) (makedirs (root w) (components dst)) w of
             (Inl e, w1) \<Rightarrow> (Inl e, w1)
           | (Inr u, w1) \<Rightarrow>
               (case copy_entries ignore (ignore (components src) (map fst entries))
                       (components src) entries (components dst) (root w1) of
                  (errors, r) \<Rightarrow>
                    (if errors = [] then Inr () else Inl (Raised (ShutilError errors)),
                     w1\<lparr>root := r\<rparr>))))"

text \<open>\<open>copytree(src, dst)\<close>, lines 105 to 108, with its filter \<open>filt\<close>.\<close>

definition filt :: "string list \<Rightarrow> string list \<Rightarrow> string list" where
  "filt dir files = [''TRANS.TBL'']"

definition copytree :: "string \<Rightarrow> string \<Rightarrow> unit prog" where
  "copytree src dst = shutil_copytree filt src dst"

text \<open>\<open>copy_boot_files(srcdir, destdir, ignore)\<close>, lines 111 to 123.\<close>

definition copy_boot_files :: "string \<Rightarrow> string \<Rightarrow> json list \<Rightarrow> unit prog" where
  "copy_boot_files srcdir destdir ignore =
     (let IGNORE = map JStr [''AppStream'', ''BaseOS'', ''.treeinfo'', ''.discinfo'', ''media.repo'']
                   @ ignore in
      bind (os_listdir srcdir) (\<lambda>names.
      for_each names (\<lambda>fname.
        if JStr fname \<in> set IGNORE then ret ()
        else (let src = join srcdir fname in
              (\<lambda>w. if path_isdir w src then copytree src (join destdir fname) w
                    else shutil_copy src destdir w)))))"

section \<open>The tree-info files\<close>

text \<open>
  \<open>RawConfigParser().read(file_path)\<close>: a file that cannot be opened is skipped and
  leaves the parser empty; a file that is no tree-info document does not parse.
\<close>

definition read_config :: "string \<Rightarrow> config prog" where
  "read_config file_path w =
     (case lookup (root w) (components file_path) of
        Some (File (Ini ti)) \<Rightarrow> (Inr ti, w)
      | Some (File other) \<Rightarrow> (Inl (Raised (ParsingError file_path)), w)
      | other \<Rightarrow> (Inr empty_config, w))"

text \<open>\<open>with open(file_path, "w") as f: ti.write(f)\<close>\<close>

definition write_config :: "string \<Rightarrow> config \<Rightarrow> unit prog" where
  "write_config file_path ti w =
     writing (components file_path) (write_file (root w) (components file_path) (Ini ti)) w"

definition tweak_baseos_treeinfo :: "string \<Rightarrow> unit prog" where
  "tweak_baseos_treeinfo file_path =
     bind (read_config file_path) (\<lambda>ti.
     bind (lift (baseos_edits ti)) (\<lambda>ti.
     write_config file_path ti))"

definition tweak_appstream_treeinfo :: "string \<Rightarrow> unit prog" where
  "tweak_appstream_treeinfo file_path =
     bind (read_config file_path) (\<lambda>ti.
     bind (lift (appstream_edits ti)) (\<lambda>ti.
     write_config file_path ti))"

section \<open>The orchestrator\<close>

text \<open>
  \<open>parser.error(msg)\<close> prints the usage and the message to standard error and exits
  with status 2.
\<close>

definition parser_error :: "string \<Rightarrow> string \<Rightarrow> 'a prog" where
  "parser_error prog msg w =
     (Inl (SystemExit 2),
      log [Stderr (''Usage: '' @ prog @ '' ISO_FILE DEST_DIR''),
           Stderr (prog @ '': error: '' @ msg)] w)"

text \<open>Lines 145 to 148: load the manifest and build \<open>extra_files\<close>.\<close>

definition load_extra_files :: "string \<Rightarrow> json list prog" where
  "load_extra_files mount_dir w =
     (case read_file (root w) (components (join mount_dir ''extra_files.json'')) of
        Inl e \<Rightarrow> (Inl (Raised e), w)
      | Inr (Json extra_files_data) \<Rightarrow> lift (extra_files_of extra_files_data) w
      | Inr other \<Rightarrow> (Inl (Raised (JSONDecodeError (join mount_dir ''extra_files.json''))), w))"

text \<open>The body of the loop over the two variants, lines 152 to 159.\<close>

definition copy_variant :: "string \<Rightarrow> string \<Rightarrow> json list \<Rightarrow> string \<Rightarrow> unit prog" where
  "copy_variant mount_dir destdir extra_files variant =
     (let variant_dir = join (join destdir (lower variant)) ''kickstart'' in
      bind (copytree (join mount_dir variant) variant_dir) (\<lambda>u.
      bind (for_each [''discinfo'', ''treeinfo''] (\<lambda>fname.
              shutil_copy (join mount_dir (''.'' @ fname)) (join variant_dir fname))) (\<lambda>u.
      for_each extra_files (\<lambda>fname.
        case fname of
          JStr s \<Rightarrow> shutil_copy (join mount_dir s) variant_dir
        | other \<Rightarrow> lift (Inl TypeError)))))"

text \<open>
  \<open>main\<close>, lines 126 to 172, from the positional arguments that
  \<open>parser.parse_args()\<close> returned; \<open>prog\<close> is the program name in the messages.
\<close>

definition main :: "proc \<Rightarrow> string \<Rightarrow> string list \<Rightarrow> unit prog" where
  "main px prog args w =
     (if length args \<noteq> 2
      then parser_error prog
             ''Expected 2 arguments, path to ISO file and destination directory'' w
      else
        (let isofile = args ! 0; destdir = args ! 1 in
         if path_exists w destdir
         then parser_error prog (''Destination directory already exists: '' @ destdir) w
         else
           bind (mount_iso px isofile (\<lambda>mount_dir.
                   bind (load_extra_files mount_dir) (\<lambda>extra_files.
                   bind (for_each [''AppStream'', ''BaseOS'']
                           (copy_variant mount_dir destdir extra_files)) (\<lambda>u.
                   copy_boot_files mount_dir (join (join destdir ''baseos'') ''kickstart'')
                     extra_files)))) (\<lambda>u.
           bind (tweak_baseos_treeinfo
                   (join (join (join destdir ''baseos'') ''kickstart'') ''treeinfo'')) (\<lambda>u.
           bind (tweak_appstream_treeinfo
                   (join (join (join destdir ''appstream'') ''kickstart'') ''treeinfo'')) (\<lambda>u.
           bind (run px [''chmod'', ''u+w'', ''-R'', destdir] False) (\<lambda>ok.
           ret ())))) w))"

section \<open>Observations\<close>

text \<open>What a run added to the trace, and what it says about unmounting and sleeping.\<close>

definition events_since :: "world \<Rightarrow> world \<Rightarrow> event list" where
  "events_since w w' = drop (length (trace w)) (trace w')"

definition umount_attempts :: "string \<Rightarrow> event list \<Rightarrow> nat" where
  "umount_attempts mount_point evs =
     length (filter (\<lambda>e. case e of Exec cmd rc \<Rightarrow> cmd = [''umount'', mount_point]
                          | other \<Rightarrow> False) evs)"

definition sleeps :: "event list \<Rightarrow> nat list" where
  "sleeps evs = concat (map (\<lambda>e. case e of Sleep secs \<Rightarrow> [secs] | other \<Rightarrow> []) evs)"

text \<open>
  The specification's reading of the retry loop: sleeps occur only between attempts, that
  is, every sleep in the trace is directly followed by a further process.
\<close>

fun sleeps_only_between_attempts :: "event list \<Rightarrow> bool" where
  "sleeps_only_between_attempts [] = True"
| "sleeps_only_between_attempts (Sleep secs # evs) =
     (case evs of
        Exec cmd rc # rest \<Rightarrow> sleeps_only_between_attempts evs
      | other \<Rightarrow> False)"
| "sleeps_only_between_attempts (e # evs) = sleeps_only_between_attempts evs"

text \<open>The paths that exist in a tree, and the files among them.\<close>

definition file_at :: "node \<Rightarrow> string list \<Rightarrow> content option" where
  "file_at r p = (case lookup r p of Some (File c) \<Rightarrow> Some c | other \<Rightarrow> None)"

definition names_in :: "node \<Rightarrow> string list \<Rightarrow> string list" where
  "names_in r p = (case lookup r p of Some (Dir es) \<Rightarrow> map fst es | other \<Rightarrow> [])"

text \<open>A directory tree as a file system holds it: the names in a directory are distinct.\<close>

fun wf_node :: "node \<Rightarrow> bool" where
  "wf_node (File c) = True"
| "wf_node (Dir es) = (distinct (map fst es) \<and> (\<forall>e \<in> set es. wf_node (snd e)))"

section \<open>A synthetic installation image\<close>

text \<open>
  The mount root of the specification's scenario: the two variant directories, the hidden
  metadata files, the manifest listing the single file README, that file, and one boot
  file.  The payloads and the tree-info document are left open.
\<close>

definition synthetic_manifest :: json where
  "synthetic_manifest = JObj [(''data'', JArr [JObj [(''file'', JStr ''README'')]])]"

definition synthetic_image :: "config \<Rightarrow> content \<Rightarrow> content \<Rightarrow> content \<Rightarrow> node" where
  "synthetic_image treeinfo discinfo readme cfg =
     Dir [(''AppStream'', Dir [(''Packages'', Dir [(''a.rpm'', File (Text ''a'')),
                                                   (''TRANS.TBL'', File (Text ''t''))])]),
          (''BaseOS'', Dir [(''Packages'', Dir [(''b.rpm'', File (Text ''b''))])]),
          (''.treeinfo'', File (Ini treeinfo)),
          (''.discinfo'', File discinfo),
          (''extra_files.json'', File (Json synthetic_manifest)),
          (''README'', File readme),
          (''isolinux'', Dir [(''isolinux.cfg'', File cfg)])]"

definition synthetic_treeinfo :: config where
  "synthetic_treeinfo =
     \<lparr> defaults = [],
       sections =
         [(''general'', [(''arch'', ''x86_64''), (''platforms'', ''x86_64,xen''),
                         (''variants'', ''AppStream,BaseOS'')]),
          (''tree'', [(''arch'', ''x86_64''), (''variants'', ''AppStream,BaseOS'')]),
          (''variant-AppStream'', [(''id'', ''AppStream'')]),
          (''variant-BaseOS'', [(''id'', ''BaseOS'')]),
          (''media'', [(''discnum'', ''1'')]),
          (''images-x86_64'', [(''kernel'', ''images/pxeboot/vmlinuz'')]),
          (''stage2'', [(''mainimage'', ''images/install.img'')]),
          (''checksums'', [])] \<rparr>"

text \<open>
  A machine with an empty \<open>/tmp\<close> and \<open>/srv\<close>, the image file \<open>/rhel8.iso\<close>, and
  \<open>umount\<close> busy for the next \<open>k\<close> calls; and the same machine with the image mounted
  on \<open>/tmp/mnt\<close>.
\<close>

definition machine :: "node \<Rightarrow> nat \<Rightarrow> world" where
  "machine img k =
     \<lparr> root = Dir [(''tmp'', Dir []), (''srv'', Dir [])],
       mounts = [],
       media = [(''/rhel8.iso'', img)],
       busy = k,
       tmpdir = ''/tmp'',
       tmp_names = [''k3s9''],
       trace = [] \<rparr>"

definition mounted_machine :: "node \<Rightarrow> nat \<Rightarrow> world" where
  "mounted_machine img k =
     \<lparr> root = Dir [(''tmp'', Dir [(''mnt'', img)]), (''srv'', Dir [])],
       mounts = [([''tmp'', ''mnt''], Dir [])],
       media = [(''/rhel8.iso'', img)],
       busy = k,
       tmpdir = ''/tmp'',
       tmp_names = [],
       trace = [] \<rparr>"

definition demo_image :: node where
  "demo_image =
     synthetic_image synthetic_treeinfo (Text ''1565820500.123456'') (Text ''Read me.'')
       (Text ''default vesamenu.c32'')"

section \<open>A tree without the entries of one name\<close>

text \<open>
  What is left of a tree when every entry of the given name, file or directory, is taken
  out at every level; the properties of \<open>copytree\<close> are stated against it.
\<close>

fun without :: "string \<Rightarrow> node \<Rightarrow> node" where
  "without x (File c) = File c"
| "without x (Dir es) =
     Dir (map (\<lambda>e. (fst e, without x (snd e))) (filter (\<lambda>e. fst e \<noteq> x) es))"

definition entries_without :: "string \<Rightarrow> (string \<times> node) list \<Rightarrow> (string \<times> node) list" where
  "entries_without x es = map (\<lambda>e. (fst e, without x (snd e))) (filter (\<lambda>e. fst e \<noteq> x) es)"

text \<open>
  A source tree of an old image: an index file \<open>TRANS.TBL\<close> beside a package, and a
  directory that carries the same name.
\<close>

definition legacy_tree :: node where
  "legacy_tree =
     Dir [(''Packages'', Dir [(''a.rpm'', File (Text ''a'')), (''TRANS.TBL'', File (Text ''t''))]),
          (''TRANS.TBL'', Dir [(''notes'', File (Text ''n''))]),
          (''EULA'', File (Text ''e''))]"

definition legacy_machine :: world where
  "legacy_machine =
     \<lparr> root = Dir [(''src'', legacy_tree), (''srv'', Dir [])],
       mounts = [], media = [], busy = 0, tmpdir = ''/tmp'', tmp_names = [], trace = [] \<rparr>"

section \<open>Properties of the file system and of the retry loop\<close>

lemma lookup_store_same:
  "lookup r p \<noteq> None \<or> (p \<noteq> [] \<and> (\<exists>es. lookup r (butlast p) = Some (Dir es))) \<Longrightarrow> lookup (store r p n) p = Some n"
proof (induction r p n rule: store.induct)
  case (1 r n)
  then show ?case by simp
next
  case (2 c name names n)
  then show ?case by (cases names) auto
next
  case (3 es name names n)
  show ?case
  proof (cases "map_of es name")
    case None
    with 3 show ?thesis by (cases names) (auto simp: map_add_def)
  next
    case (Some child)
    with 3 show ?thesis by (cases names) (auto simp: update_conv')
  qed
qed


lemma upt5: "[0..<5] = [0, 1, 2, 3, 4::nat]"
  by (simp add: upt_rec)

lemma system_umount:
  "system [''umount'', mp] w =
     (case umount_cmd mp w of ((rc, out), w1) \<Rightarrow> ((rc, out), log [Exec [''umount'', mp] rc] w1))"
  by (simp add: system_def)

lemma run_tolerant: "\<exists>b w1. run px cmd True w = (Inr b, w1)"
  by (cases "px cmd w") (auto simp: run_def)

lemma umount_loop_returns: "\<exists>w1. umount_loop px mp ts w = (Inr (), w1)"
proof (induction ts arbitrary: w)
  case Nil
  show ?case by simp
next
  case (Cons t ts)
  obtain b w1 where r: "run px [''umount'', mp] True w = (Inr b, w1)"
    using run_tolerant by blast
  show ?case
  proof (cases b)
    case True
    with r show ?thesis by simp
  next
    case False
    with r Cons [of "log [Sleep t] w1"] show ?thesis by (simp add: sleep_def)
  qed
qed

lemma teardown_is_rmdir:
  "\<exists>w1. umount_loop px mp [0..<5] w = (Inr (), w1) \<and> teardown px mp w = os_rmdir mp w1"
proof -
  obtain w1 where "umount_loop px mp [0..<5] w = (Inr (), w1)"
    using umount_loop_returns by blast
  then show ?thesis by (simp add: teardown_def bind_def)
qed

lemma umount_loop_busy:
  assumes "map_of (mounts w) (components mp) = Some covered" and "length ts \<le> busy w"
  shows "umount_loop system mp ts w =
           (Inr (), w\<lparr>busy := busy w - length ts,
                       trace := trace w @ concat (map (\<lambda>t. [Exec [''umount'', mp] 32, Sleep t]) ts)\<rparr>)"
  using assms
proof (induction ts arbitrary: w)
  case Nil
  show ?case by simp
next
  case (Cons t ts)
  let ?w2 = "w\<lparr>busy := busy w - 1, trace := trace w @ [Exec [''umount'', mp] 32, Sleep t]\<rparr>"
  have step: "umount_loop system mp (t # ts) w = umount_loop system mp ts ?w2"
    using Cons.prems
    by (simp add: run_def system_umount umount_cmd_def log_def sleep_def Let_def)
  have "umount_loop system mp ts ?w2 =
          (Inr (), ?w2\<lparr>busy := busy ?w2 - length ts,
             trace := trace ?w2 @ concat (map (\<lambda>t. [Exec [''umount'', mp] 32, Sleep t]) ts)\<rparr>)"
    using Cons.prems by (intro Cons.IH) auto
  with step show ?case by simp
qed

lemma umount_loop_free:
  assumes "map_of (mounts w) (components mp) = Some covered" and "busy w < length ts"
  shows "umount_loop system mp ts w =
           (Inr (), w\<lparr>root := store (root w) (components mp) covered,
                       mounts := AList.delete (components mp) (mounts w),
                       busy := 0,
                       trace := trace w
                         @ concat (map (\<lambda>t. [Exec [''umount'', mp] 32, Sleep t]) (take (busy w) ts))
                         @ [Exec [''umount'', mp] 0]\<rparr>)"
  using assms
proof (induction ts arbitrary: w)
  case Nil
  then show ?case by simp
next
  case (Cons t ts)
  show ?case
  proof (cases "busy w")
    case 0
    with Cons.prems show ?thesis
      by (simp add: run_def system_umount umount_cmd_def log_def sleep_def Let_def)
  next
    case (Suc k)
    let ?w2 = "w\<lparr>busy := k, trace := trace w @ [Exec [''umount'', mp] 32, Sleep t]\<rparr>"
    have step: "umount_loop system mp (t # ts) w = umount_loop system mp ts ?w2"
      using Cons.prems Suc
      by (simp add: run_def system_umount umount_cmd_def log_def sleep_def Let_def)
    have "umount_loop system mp ts ?w2 =
            (Inr (), ?w2\<lparr>root := store (root ?w2) (components mp) covered,
                       mounts := AList.delete (components mp) (mounts ?w2),
                       busy := 0,
                       trace := trace ?w2
                         @ concat (map (\<lambda>t. [Exec [''umount'', mp] 32, Sleep t]) (take (busy ?w2) ts))
                         @ [Exec [''umount'', mp] 0]\<rparr>)"
      using Cons.prems Suc by (intro Cons.IH) auto
    with step Suc show ?thesis by simp
  qed
qed

lemma system_trace:
  "trace (snd (system cmd w)) = trace w @ [Exec cmd (fst (fst (system cmd w)))]"
  by (auto simp: system_def mount_cmd_def umount_cmd_def chmod_cmd_def log_def Let_def
           split: option.splits node.splits prod.splits)

lemma os_rmdir_trace: "trace (snd (os_rmdir mp w)) = trace w @ [Rmdir mp]"
  by (auto simp: os_rmdir_def writing_def log_def Let_def
           split: option.splits node.splits list.splits sum.splits)

lemma umount_attempts_simps:
  "umount_attempts mp [] = 0"
  "umount_attempts mp (Exec [''umount'', mp] rc # evs) = Suc (umount_attempts mp evs)"
  "umount_attempts mp (Sleep t # evs) = umount_attempts mp evs"
  "umount_attempts mp (Rmdir p # evs) = umount_attempts mp evs"
  "umount_attempts mp (xs @ ys) = umount_attempts mp xs + umount_attempts mp ys"
  by (simp_all add: umount_attempts_def)

lemma umount_loop_attempts:
  "\<exists>w1 evs. umount_loop system mp ts w = (Inr (), w1) \<and> trace w1 = trace w @ evs \<and>
      umount_attempts mp evs \<le> length ts \<and> (ts \<noteq> [] \<longrightarrow> 1 \<le> umount_attempts mp evs)"
proof (induction ts arbitrary: w)
  case Nil
  show ?case by (simp add: umount_attempts_simps)
next
  case (Cons t ts)
  obtain rc out w1 where s: "system [''umount'', mp] w = ((rc, out), w1)"
    by (metis surj_pair)
  have tr: "trace w1 = trace w @ [Exec [''umount'', mp] rc]"
    using system_trace [of "[''umount'', mp]" w] s by simp
  show ?case
  proof (cases "rc = 0")
    case True
    with s tr show ?thesis by (simp add: run_def umount_attempts_simps)
  next
    case False
    let ?w2 = "log [Sleep t] w1"
    obtain w3 evs where ih: "umount_loop system mp ts ?w2 = (Inr (), w3)"
      "trace w3 = trace ?w2 @ evs" "umount_attempts mp evs \<le> length ts"
      using Cons [of ?w2] by blast
    have "umount_loop system mp (t # ts) w = (Inr (), w3)"
      using s False ih(1) by (simp add: run_def sleep_def)
    moreover have "trace w3 = trace w @ (Exec [''umount'', mp] rc # Sleep t # evs)"
      using ih(2) tr by (simp add: log_def)
    moreover have "umount_attempts mp (Exec [''umount'', mp] rc # Sleep t # evs) \<le> length (t # ts)"
      "1 \<le> umount_attempts mp (Exec [''umount'', mp] rc # Sleep t # evs)"
      using ih(3) by (simp_all add: umount_attempts_simps)
    ultimately show ?thesis by blast
  qed
qed

lemma teardown_stuck:
  assumes "map_of (mounts w) (components mp) = Some covered" and "5 \<le> busy w"
  shows "teardown system mp w =
           (Inl (Raised (OSError ''EBUSY'' (components mp))),
            w\<lparr>busy := busy w - 5,
               trace := trace w @
                 [Exec [''umount'', mp] 32, Sleep 0, Exec [''umount'', mp] 32, Sleep 1,
                  Exec [''umount'', mp] 32, Sleep 2, Exec [''umount'', mp] 32, Sleep 3,
                  Exec [''umount'', mp] 32, Sleep 4, Rmdir mp]\<rparr>)"
proof -
  have "umount_loop system mp [0..<5] w =
          (Inr (), w\<lparr>busy := busy w - length [0..<5],
             trace := trace w @ concat (map (\<lambda>t. [Exec [''umount'', mp] 32, Sleep t]) [0..<5])\<rparr>)"
    using assms by (intro umount_loop_busy) auto
  then show ?thesis
    using assms(1) by (simp add: teardown_def bind_def upt5 os_rmdir_def log_def Let_def)
qed

lemma teardown_after_retries:
  assumes "map_of (mounts w) (components mp) = Some (Dir [])"
      and "busy w < 5"
      and "lookup (root w) (components mp) \<noteq> None"
      and "\<not> list_ex (\<lambda>m. prefix (fst m) (components mp)) (AList.delete (components mp) (mounts w))"
  shows "teardown system mp w =
           (Inr (),
            w\<lparr>root := remove (store (root w) (components mp) (Dir [])) (components mp),
               mounts := AList.delete (components mp) (mounts w),
               busy := 0,
               trace := trace w
                 @ concat (map (\<lambda>t. [Exec [''umount'', mp] 32, Sleep t]) [0..<busy w])
                 @ [Exec [''umount'', mp] 0, Rmdir mp]\<rparr>)"
proof -
  have tk: "take (busy w) [0..<5] = [0..<busy w]"
    using assms(2) by (simp add: take_upt)
  have "umount_loop system mp [0..<5] w =
           (Inr (), w\<lparr>root := store (root w) (components mp) (Dir []),
                       mounts := AList.delete (components mp) (mounts w),
                       busy := 0,
                       trace := trace w
                         @ concat (map (\<lambda>t. [Exec [''umount'', mp] 32, Sleep t]) (take (busy w) [0..<5]))
                         @ [Exec [''umount'', mp] 0]\<rparr>)"
    using assms by (intro umount_loop_free) auto
  moreover have "lookup (store (root w) (components mp) (Dir [])) (components mp) = Some (Dir [])"
    using assms(3) by (intro lookup_store_same) simp
  ultimately show ?thesis
    using assms(4)
    by (simp add: teardown_def bind_def os_rmdir_def log_def Let_def delete_conv' writing_def
          readonly_def tk)
qed

lemmas world_eval =
  machine_def mounted_machine_def mkdtemp_def join_def startswith_def endswith_def
  components_def mkdir_def writing_def readonly_def system_def mount_cmd_def umount_cmd_def
  chmod_cmd_def log_def run_def path_exists_def path_isdir_def exists_def isdir_def

lemma mkdtemp_try_result:
  "mkdtemp_try sfx names w = (Inr file, w1) \<Longrightarrow>
     lookup (root w1) (components file) = Some (Dir []) \<and> trace w1 = trace w \<and>
     mounts w1 = mounts w \<and> media w1 = media w \<and> busy w1 = busy w"
proof (induction names arbitrary: w)
  case Nil
  then show ?case by simp
next
  case (Cons name names)
  let ?file = "join (tmpdir w) (''tmp'' @ name @ sfx)"
  let ?w1 = "w\<lparr>tmp_names := names\<rparr>"
  show ?case
  proof (cases "mkdir (root w) (components ?file)")
    case (Inl e)
    show ?thesis
    proof (cases "\<exists>p. e = FileExistsError p")
      case True
      with Inl Cons.prems have "mkdtemp_try sfx names ?w1 = (Inr file, w1)"
        by (auto simp: Let_def)
      from Cons.IH [OF this] show ?thesis by simp
    next
      case False
      with Inl Cons.prems show ?thesis
        by (cases e) (auto simp: Let_def writing_def split: if_splits)
    qed
  next
    case (Inr r)
    then have r: "r = store (root w) (components ?file) (Dir [])"
      and par: "lookup (root w) (components ?file) = None"
         "\<exists>es. lookup (root w) (butlast (components ?file)) = Some (Dir es)"
      by (auto simp: mkdir_def split: option.splits node.splits)
    have ne: "components ?file \<noteq> []"
      using par(1) by (cases "components ?file") auto
    have "lookup r (components ?file) = Some (Dir [])"
      unfolding r using par(2) ne by (intro lookup_store_same) simp
    with Inr Cons.prems show ?thesis
      by (auto simp: Let_def writing_def split: if_splits)
  qed
qed

lemma join_words_spaces:
  "join_words cmd =
     (if cmd = [] then [] else concat (map (\<lambda>word. word @ '' '') (butlast cmd)) @ last cmd)"
  by (induction cmd rule: join_words.induct) simp_all


text \<open>
  C6.  The command runner: a process that exits with zero makes \<open>run\<close> return True
  in either mode; a non-zero exit in tolerant mode returns False and leaves the machine
  exactly as the process left it; a non-zero exit in non-tolerant mode prints, to standard
  error, the line that quotes the command line (the words of the argument vector, each
  followed by one space except the last) and then the captured output, and exits with
  status 1, so that whatever the caller would do next is not done.
\<close>

theorem run_outcomes:
  "px cmd w = ((returncode, out), w1) \<longrightarrow>
     (returncode = 0 \<longrightarrow> run px cmd can_fail w = (Inr True, w1)) \<and>
     (returncode \<noteq> 0 \<and> can_fail \<longrightarrow> run px cmd can_fail w = (Inr False, w1)) \<and>
     (returncode \<noteq> 0 \<and> \<not> can_fail \<longrightarrow>
        run px cmd can_fail w =
          (Inl (SystemExit 1),
           w1\<lparr>trace := trace w1 @
              [Stderr (''Executed command '' @ [CHR 0x27]
                       @ (if cmd = [] then []
                          else concat (map (\<lambda>word. word @ '' '') (butlast cmd)) @ last cmd)
                       @ [CHR 0x27] @ '' failed with following output:''),
               Stderr out]\<rparr>) \<and>
        (\<forall>continue. fst (bind (run px cmd can_fail) continue w) = Inl (SystemExit 1)))"
  by (simp add: run_def bind_def log_def join_words_spaces del: join_words.simps)

theorem run_outcomes_witness:
  "run system [''umount'', ''/tmp/mnt''] True (mounted_machine demo_image 1) =
     (Inr False, (mounted_machine demo_image 0)\<lparr>trace := [Exec [''umount'', ''/tmp/mnt''] 32]\<rparr>) \<and>
   run system [''umount'', ''/tmp/mnt''] False (mounted_machine demo_image 1) =
     (Inl (SystemExit 1),
      (mounted_machine demo_image 0)
        \<lparr>trace := [Exec [''umount'', ''/tmp/mnt''] 32,
                   Stderr (''Executed command '' @ [CHR 0x27] @ ''umount /tmp/mnt'' @ [CHR 0x27]
                           @ '' failed with following output:''),
                   Stderr ''umount: target is busy'']\<rparr>) \<and>
   run system [''chmod'', ''u+w'', ''-R'', ''/srv''] False (machine demo_image 0) =
     (Inr True, (machine demo_image 0)\<lparr>trace := [Exec [''chmod'', ''u+w'', ''-R'', ''/srv''] 0]\<rparr>)"
proof -
  let ?busy = "(mounted_machine demo_image 0)\<lparr>trace := [Exec [''umount'', ''/tmp/mnt''] 32]\<rparr>"
  let ?done = "(machine demo_image 0)\<lparr>trace := [Exec [''chmod'', ''u+w'', ''-R'', ''/srv''] 0]\<rparr>"
  have busy: "system [''umount'', ''/tmp/mnt''] (mounted_machine demo_image 1) =
     ((32, ''umount: target is busy''), ?busy)"
    by (simp add: world_eval)
  have ok: "system [''chmod'', ''u+w'', ''-R'', ''/srv''] (machine demo_image 0) = ((0, []), ?done)"
    by (simp add: world_eval)
  have ne: "(32::int) \<noteq> 0 \<and> \<not> False" by simp
  have ne': "(32::int) \<noteq> 0 \<and> True" by simp
  have z: "(0::int) = 0" by simp
  have t: "run system [''umount'', ''/tmp/mnt''] True (mounted_machine demo_image 1) = (Inr False, ?busy)"
    by (rule run_outcomes [of system "[''umount'', ''/tmp/mnt'']" "mounted_machine demo_image 1"
            32 "''umount: target is busy''" ?busy True, THEN mp, OF busy,
            THEN conjunct2, THEN conjunct1, THEN mp, OF ne'])
  note F = run_outcomes [of system "[''umount'', ''/tmp/mnt'']" "mounted_machine demo_image 1"
            32 "''umount: target is busy''" ?busy False, THEN mp, OF busy,
            THEN conjunct2, THEN conjunct2, THEN mp, OF ne, THEN conjunct1]
  have f: "run system [''umount'', ''/tmp/mnt''] False (mounted_machine demo_image 1) =
     (Inl (SystemExit 1),
      (mounted_machine demo_image 0)
        \<lparr>trace := [Exec [''umount'', ''/tmp/mnt''] 32,
                   Stderr (''Executed command '' @ [CHR 0x27] @ ''umount /tmp/mnt'' @ [CHR 0x27]
                           @ '' failed with following output:''),
                   Stderr ''umount: target is busy'']\<rparr>)"
    unfolding F by simp
  have c: "run system [''chmod'', ''u+w'', ''-R'', ''/srv''] False (machine demo_image 0) = (Inr True, ?done)"
    by (rule run_outcomes [of system "[''chmod'', ''u+w'', ''-R'', ''/srv'']" "machine demo_image 0"
            0 "[]" ?done False, THEN mp, OF ok, THEN conjunct1, THEN mp, OF z])
  show ?thesis
    by (intro conjI t f c)
qed

text \<open>
  C4.  With an argument count other than two, or with a destination that already exists,
  \<open>main\<close> exits with status 2 having only printed the usage and the error: the tree,
  the mounts and the temporary names are untouched and no process was run.
\<close>

theorem main_validation_first:
  "length args \<noteq> 2 \<or> path_exists w (args ! 1) \<longrightarrow>
     (\<exists>msg. main px prog args w =
        (Inl (SystemExit 2),
         w\<lparr>trace := trace w @ [Stderr (''Usage: '' @ prog @ '' ISO_FILE DEST_DIR''),
                               Stderr (prog @ '': error: '' @ msg)]\<rparr>)) \<and>
     root (snd (main px prog args w)) = root w \<and>
     mounts (snd (main px prog args w)) = mounts w \<and>
     tmp_names (snd (main px prog args w)) = tmp_names w \<and>
     (\<forall>cmd rc. Exec cmd rc \<notin> set (events_since w (snd (main px prog args w))))"
  by (auto simp: main_def parser_error_def log_def Let_def events_since_def umount_attempts_def)

theorem main_validation_first_witness:
  "path_exists (machine demo_image 0) ''/srv'' \<and>
   fst (main system ''prog'' [''/rhel8.iso'', ''/srv''] (machine demo_image 0)) = Inl (SystemExit 2) \<and>
   root (snd (main system ''prog'' [''/rhel8.iso'', ''/srv''] (machine demo_image 0)))
     = root (machine demo_image 0) \<and>
   fst (main system ''prog'' [''/rhel8.iso''] (machine demo_image 0)) = Inl (SystemExit 2) \<and>
   root (snd (main system ''prog'' [''/rhel8.iso''] (machine demo_image 0)))
     = root (machine demo_image 0)"
proof -
  have ex: "path_exists (machine demo_image 0) ''/srv''"
    by (simp add: world_eval)
  show ?thesis
    using main_validation_first [of "[''/rhel8.iso'', ''/srv'']" "machine demo_image 0" system "''prog''"]
          main_validation_first [of "[''/rhel8.iso'']" "machine demo_image 0" system "''prog''"]
          ex
    by auto
qed

section \<open>The scoped mount\<close>

lemma mkdtemp_result:
  "fst (mkdtemp sfx w) = Inr file \<Longrightarrow>
     lookup (root (snd (mkdtemp sfx w))) (components file) = Some (Dir []) \<and>
     trace (snd (mkdtemp sfx w)) = trace w"
  using mkdtemp_try_result [of sfx "tmp_names w" w "file" "snd (mkdtemp sfx w)"]
  by (cases "mkdtemp_try sfx (tmp_names w) w") (simp add: mkdtemp_def)

lemma mount_failure_keeps_root:
  "fst (fst (system [''mount'', ''-o'', ''loop'', isofile, mp] w)) \<noteq> 0 \<Longrightarrow>
     root (snd (system [''mount'', ''-o'', ''loop'', isofile, mp] w)) = root w \<and>
     mounts (snd (system [''mount'', ''-o'', ''loop'', isofile, mp] w)) = mounts w"
  by (auto simp: system_def mount_cmd_def log_def Let_def
           split: option.splits node.splits prod.splits)

lemma mount_iso_failed_mount:
  "mkdtemp ''.rhel-8-iso'' w = (Inr mp, w1) \<Longrightarrow>
   run px [''mount'', ''-o'', ''loop'', isofile, mp] False w1 = (Inl e, w2) \<Longrightarrow>
   mount_iso px isofile body w = (Inl e, w2)"
  by (simp add: mount_iso_def)

text \<open>
  C10.  When the mount command itself fails, \<open>mount_iso\<close> (whatever its body) and with it
  \<open>main\<close> exit with status 1 after printing the command and its output; the body is never
  entered and the \<open>finally\<close> block never runs: the trace holds the mount process and the
  two printed lines only (no \<open>umount\<close>, no \<open>rmdir\<close>), and the directory that
  \<open>mkdtemp\<close> made is still there, empty.
\<close>

theorem mount_failure_leaves_tmpdir:
  "fst (mkdtemp ''.rhel-8-iso'' w) = Inr mp \<and>
   fst (fst (system [''mount'', ''-o'', ''loop'', isofile, mp] (snd (mkdtemp ''.rhel-8-iso'' w)))) \<noteq> 0 \<and>
   \<not> path_exists w destdir \<longrightarrow>
     (let w1 = snd (mkdtemp ''.rhel-8-iso'' w);
          mount = system [''mount'', ''-o'', ''loop'', isofile, mp] w1;
          w2 = snd mount;
          printed = [Stderr (''Executed command '' @ [CHR 0x27]
                             @ join_words [''mount'', ''-o'', ''loop'', isofile, mp]
                             @ [CHR 0x27] @ '' failed with following output:''),
                     Stderr (snd (fst mount))]
      in mount_iso system isofile body w = (Inl (SystemExit 1), log printed w2) \<and>
         main system prog [isofile, destdir] w = (Inl (SystemExit 1), log printed w2) \<and>
         lookup (root w2) (components mp) = Some (Dir []) \<and>
         mounts w2 = mounts w \<and>
         events_since w (log printed w2) =
           Exec [''mount'', ''-o'', ''loop'', isofile, mp] (fst (fst mount)) # printed)"
proof (intro impI, elim conjE)
  let ?cmd = "[''mount'', ''-o'', ''loop'', isofile, mp]"
  let ?printed = "\<lambda>out. [Stderr (''Executed command '' @ [CHR 0x27] @ join_words ?cmd @ [CHR 0x27]
                        @ '' failed with following output:''), Stderr out]"
  assume mk: "fst (mkdtemp ''.rhel-8-iso'' w) = Inr mp"
    and rc: "fst (fst (system ?cmd (snd (mkdtemp ''.rhel-8-iso'' w)))) \<noteq> 0"
    and dest: "\<not> path_exists w destdir"
  obtain w1 where mk': "mkdtemp ''.rhel-8-iso'' w = (Inr mp, w1)"
    using mk by (cases "mkdtemp ''.rhel-8-iso'' w") simp
  obtain r out w2 where m: "system ?cmd w1 = ((r, out), w2)"
    by (metis surj_pair)
  with rc mk' have r: "r \<noteq> 0" by simp
  have run: "run system ?cmd False w1 = (Inl (SystemExit 1), log (?printed out) w2)"
    using m r by (simp add: run_def)
  have res: "lookup (root w1) (components mp) = Some (Dir [])" "trace w1 = trace w"
      "mounts w1 = mounts w"
    using mkdtemp_try_result [of "''.rhel-8-iso''" "tmp_names w" w mp w1] mk'
    by (simp_all add: mkdtemp_def)
  have tr: "trace w2 = trace w @ [Exec ?cmd r]"
    using system_trace [of ?cmd w1] m res by simp
  have keep: "root w2 = root w1" "mounts w2 = mounts w1"
    using mount_failure_keeps_root [of isofile mp w1] r m by simp_all
  have main: "main system prog [isofile, destdir] w = (Inl (SystemExit 1), log (?printed out) w2)"
    using dest by (simp add: main_def bind_def mount_iso_failed_mount [OF mk' run])
  have ev: "events_since w (log (?printed out) w2) = Exec ?cmd r # ?printed out"
    using tr by (simp add: events_since_def log_def)
  show "let w1 = snd (mkdtemp ''.rhel-8-iso'' w);
          mount = system [''mount'', ''-o'', ''loop'', isofile, mp] w1;
          w2 = snd mount;
          printed = [Stderr (''Executed command '' @ [CHR 0x27]
                             @ join_words [''mount'', ''-o'', ''loop'', isofile, mp]
                             @ [CHR 0x27] @ '' failed with following output:''),
                     Stderr (snd (fst mount))]
      in mount_iso system isofile body w = (Inl (SystemExit 1), log printed w2) \<and>
         main system prog [isofile, destdir] w = (Inl (SystemExit 1), log printed w2) \<and>
         lookup (root w2) (components mp) = Some (Dir []) \<and>
         mounts w2 = mounts w \<and>
         events_since w (log printed w2) =
           Exec [''mount'', ''-o'', ''loop'', isofile, mp] (fst (fst mount)) # printed"
    unfolding Let_def mk' snd_conv m fst_conv
    using mount_iso_failed_mount [OF mk' run, of body] main res keep ev by simp
qed


theorem mount_failure_leaves_tmpdir_witness:
  "fst (mkdtemp ''.rhel-8-iso'' (machine demo_image 0)) = Inr ''/tmp/tmpk3s9.rhel-8-iso'' \<and>
   fst (fst (system [''mount'', ''-o'', ''loop'', ''/missing.iso'', ''/tmp/tmpk3s9.rhel-8-iso'']
               (snd (mkdtemp ''.rhel-8-iso'' (machine demo_image 0))))) = 32 \<and>
   \<not> path_exists (machine demo_image 0) ''/srv/out'' \<and>
   fst (main system ''prog'' [''/missing.iso'', ''/srv/out''] (machine demo_image 0)) =
     Inl (SystemExit 1) \<and>
   lookup (root (snd (main system ''prog'' [''/missing.iso'', ''/srv/out''] (machine demo_image 0))))
     [''tmp'', ''tmpk3s9.rhel-8-iso''] = Some (Dir [])"
proof -
  let ?w = "machine demo_image 0"
  let ?mp = "''/tmp/tmpk3s9.rhel-8-iso''"
  have mk: "mkdtemp ''.rhel-8-iso'' ?w =
      (Inr ?mp, ?w\<lparr>root := Dir [(''tmp'', Dir [(''tmpk3s9.rhel-8-iso'', Dir [])]), (''srv'', Dir [])],
                    tmp_names := []\<rparr>)"
    by (simp add: world_eval)
  have h1: "fst (mkdtemp ''.rhel-8-iso'' ?w) = Inr ?mp"
    by (simp add: mk)
  have h2: "fst (fst (system [''mount'', ''-o'', ''loop'', ''/missing.iso'', ?mp]
               (snd (mkdtemp ''.rhel-8-iso'' ?w)))) = 32"
    by (simp add: mk) (simp add: world_eval)
  have h3: "\<not> path_exists ?w ''/srv/out''"
    by (simp add: world_eval)
  have c: "components ?mp = [''tmp'', ''tmpk3s9.rhel-8-iso'']"
    by (simp add: components_def)
  from h1 h2 h3
  have "fst (mkdtemp ''.rhel-8-iso'' ?w) = Inr ?mp \<and>
        fst (fst (system [''mount'', ''-o'', ''loop'', ''/missing.iso'', ?mp]
               (snd (mkdtemp ''.rhel-8-iso'' ?w)))) \<noteq> 0 \<and>
        \<not> path_exists ?w ''/srv/out''"
    by simp
  note T = mount_failure_leaves_tmpdir [of ?w ?mp "''/missing.iso''" "''/srv/out''"
         "\<lambda>mp. ret ()" "''prog''", THEN mp, OF this, unfolded Let_def]
  have m: "main system ''prog'' [''/missing.iso'', ''/srv/out''] ?w =
       (Inl (SystemExit 1),
        log [Stderr (''Executed command '' @ [CHR 0x27]
                     @ join_words [''mount'', ''-o'', ''loop'', ''/missing.iso'', ?mp]
                     @ [CHR 0x27] @ '' failed with following output:''),
             Stderr (snd (fst (system [''mount'', ''-o'', ''loop'', ''/missing.iso'', ?mp]
                                 (snd (mkdtemp ''.rhel-8-iso'' ?w)))))]
          (snd (system [''mount'', ''-o'', ''loop'', ''/missing.iso'', ?mp]
                  (snd (mkdtemp ''.rhel-8-iso'' ?w)))))"
    by (rule T [THEN conjunct2, THEN conjunct1])
  have l: "lookup (root (snd (system [''mount'', ''-o'', ''loop'', ''/missing.iso'', ?mp]
                  (snd (mkdtemp ''.rhel-8-iso'' ?w))))) (components ?mp) = Some (Dir [])"
    by (rule T [THEN conjunct2, THEN conjunct2, THEN conjunct1])
  have "fst (main system ''prog'' [''/missing.iso'', ''/srv/out''] ?w) = Inl (SystemExit 1)"
    by (simp only: m fst_conv)
  moreover
  have "lookup (root (snd (main system ''prog'' [''/missing.iso'', ''/srv/out''] ?w)))
          [''tmp'', ''tmpk3s9.rhel-8-iso''] = Some (Dir [])"
    using l unfolding c by (simp add: m log_def del: join_words.simps)
  ultimately show ?thesis
    using h1 h2 h3 by simp
qed

text \<open>
  C7.  The mount scope: once the image is mounted, the \<open>finally\<close> block runs on the
  machine the body left, whether the body returned or raised, and the body's result stands
  unless the block raises.  For any process the loop ends normally and the block's result is
  that of \<open>os.rmdir\<close>, so the removal is always attempted and what it raises propagates.
  On the modelled machine there are between one and five \<open>umount\<close> attempts and the last
  event is the removal.  When \<open>umount\<close> fails four times and then succeeds, the block
  succeeds, sleeps 0, 1, 2, 3 seconds and does not sleep after the fifth attempt; when it
  fails five times, the removal is still attempted and its error (the mount point is busy)
  is the block's result.
\<close>

theorem mount_scope_teardown:
  "(fst (mkdtemp ''.rhel-8-iso'' w0) = Inr mp \<and>
    fst (run px [''mount'', ''-o'', ''loop'', isofile, mp] False (snd (mkdtemp ''.rhel-8-iso'' w0)))
      = Inr ok \<longrightarrow>
      (let w2 = snd (run px [''mount'', ''-o'', ''loop'', isofile, mp] False
                      (snd (mkdtemp ''.rhel-8-iso'' w0)))
       in mount_iso px isofile body w0 =
            (case teardown px mp (snd (body mp w2)) of
               (Inl e, w4) \<Rightarrow> (Inl e, w4)
             | (Inr u, w4) \<Rightarrow> (fst (body mp w2), w4)))) \<and>
   (\<exists>w4. umount_loop px mp [0..<5] w = (Inr (), w4) \<and> teardown px mp w = os_rmdir mp w4) \<and>
   (let evs = events_since w (snd (teardown system mp w))
    in 1 \<le> umount_attempts mp evs \<and> umount_attempts mp evs \<le> 5 \<and> last evs = Rmdir mp) \<and>
   (map_of (mounts w) (components mp) = Some (Dir []) \<and> busy w = 4 \<and>
    lookup (root w) (components mp) \<noteq> None \<and>
    \<not> list_ex (\<lambda>m. prefix (fst m) (components mp)) (AList.delete (components mp) (mounts w))
    \<longrightarrow>
      teardown system mp w =
        (Inr (),
         w\<lparr>root := remove (store (root w) (components mp) (Dir [])) (components mp),
            mounts := AList.delete (components mp) (mounts w),
            busy := 0,
            trace := trace w @
              [Exec [''umount'', mp] 32, Sleep 0, Exec [''umount'', mp] 32, Sleep 1,
               Exec [''umount'', mp] 32, Sleep 2, Exec [''umount'', mp] 32, Sleep 3,
               Exec [''umount'', mp] 0, Rmdir mp]\<rparr>)) \<and>
   (map_of (mounts w) (components mp) = Some covered \<and> 5 \<le> busy w \<longrightarrow>
      teardown system mp w =
        (Inl (Raised (OSError ''EBUSY'' (components mp))),
         w\<lparr>busy := busy w - 5,
            trace := trace w @
              [Exec [''umount'', mp] 32, Sleep 0, Exec [''umount'', mp] 32, Sleep 1,
               Exec [''umount'', mp] 32, Sleep 2, Exec [''umount'', mp] 32, Sleep 3,
               Exec [''umount'', mp] 32, Sleep 4, Rmdir mp]\<rparr>))"
proof (intro conjI impI)
  assume a: "fst (mkdtemp ''.rhel-8-iso'' w0) = Inr mp \<and>
    fst (run px [''mount'', ''-o'', ''loop'', isofile, mp] False (snd (mkdtemp ''.rhel-8-iso'' w0)))
      = Inr ok"
  obtain w1 where mk: "mkdtemp ''.rhel-8-iso'' w0 = (Inr mp, w1)"
    using a by (cases "mkdtemp ''.rhel-8-iso'' w0") simp
  obtain w2 where mnt: "run px [''mount'', ''-o'', ''loop'', isofile, mp] False w1 = (Inr ok, w2)"
    using a mk by (cases "run px [''mount'', ''-o'', ''loop'', isofile, mp] False w1") simp
  show "let w2 = snd (run px [''mount'', ''-o'', ''loop'', isofile, mp] False
                      (snd (mkdtemp ''.rhel-8-iso'' w0)))
       in mount_iso px isofile body w0 =
            (case teardown px mp (snd (body mp w2)) of
               (Inl e, w4) \<Rightarrow> (Inl e, w4)
             | (Inr u, w4) \<Rightarrow> (fst (body mp w2), w4))"
    by (auto simp: mount_iso_def mk mnt split: prod.splits sum.splits)
next
  show "\<exists>w4. umount_loop px mp [0..<5] w = (Inr (), w4) \<and> teardown px mp w = os_rmdir mp w4"
    by (rule teardown_is_rmdir)
next
  obtain w1 evs where l: "umount_loop system mp [0..<5] w = (Inr (), w1)"
      "trace w1 = trace w @ evs" "umount_attempts mp evs \<le> length [0..<5]"
      "1 \<le> umount_attempts mp evs"
    using umount_loop_attempts [of mp "[0..<5]" w] by auto
  have "teardown system mp w = os_rmdir mp w1"
    using l(1) by (simp add: teardown_def bind_def)
  then have "events_since w (snd (teardown system mp w)) = evs @ [Rmdir mp]"
    using os_rmdir_trace [of mp w1] l(2) by (simp add: events_since_def)
  with l(3,4) show "let evs = events_since w (snd (teardown system mp w))
    in 1 \<le> umount_attempts mp evs \<and> umount_attempts mp evs \<le> 5 \<and> last evs = Rmdir mp"
    by (simp add: umount_attempts_simps)
next
  assume "map_of (mounts w) (components mp) = Some (Dir []) \<and> busy w = 4 \<and>
    lookup (root w) (components mp) \<noteq> None \<and>
    \<not> list_ex (\<lambda>m. prefix (fst m) (components mp)) (AList.delete (components mp) (mounts w))"
  then show "teardown system mp w =
        (Inr (),
         w\<lparr>root := remove (store (root w) (components mp) (Dir [])) (components mp),
            mounts := AList.delete (components mp) (mounts w),
            busy := 0,
            trace := trace w @
              [Exec [''umount'', mp] 32, Sleep 0, Exec [''umount'', mp] 32, Sleep 1,
               Exec [''umount'', mp] 32, Sleep 2, Exec [''umount'', mp] 32, Sleep 3,
               Exec [''umount'', mp] 0, Rmdir mp]\<rparr>)"
    using teardown_after_retries [of w mp] by (simp add: upt_rec)
next
  assume "map_of (mounts w) (components mp) = Some covered \<and> 5 \<le> busy w"
  then show "teardown system mp w =
        (Inl (Raised (OSError ''EBUSY'' (components mp))),
         w\<lparr>busy := busy w - 5,
            trace := trace w @
              [Exec [''umount'', mp] 32, Sleep 0, Exec [''umount'', mp] 32, Sleep 1,
               Exec [''umount'', mp] 32, Sleep 2, Exec [''umount'', mp] 32, Sleep 3,
               Exec [''umount'', mp] 32, Sleep 4, Rmdir mp]\<rparr>)"
    using teardown_stuck [of w mp covered] by simp
qed

theorem mount_scope_teardown_witness:
  "fst (mkdtemp ''.rhel-8-iso'' (machine demo_image 4)) = Inr ''/tmp/tmpk3s9.rhel-8-iso'' \<and>
   fst (mount_iso system ''/rhel8.iso'' (\<lambda>mount_dir. lift (Inl TypeError) :: unit prog) (machine demo_image 4))
     = Inl (Raised TypeError) \<and>
   sleeps (trace (snd (mount_iso system ''/rhel8.iso'' (\<lambda>mount_dir. lift (Inl TypeError) :: unit prog)
                         (machine demo_image 4)))) = [0, 1, 2, 3] \<and>
   root (snd (mount_iso system ''/rhel8.iso'' (\<lambda>mount_dir. lift (Inl TypeError) :: unit prog)
                (machine demo_image 4))) = root (machine demo_image 4) \<and>
   fst (teardown system ''/tmp/mnt'' (mounted_machine demo_image 7)) =
     Inl (Raised (OSError ''EBUSY'' [''tmp'', ''mnt'']))"
proof -
  let ?W0 = "machine demo_image 4"
  let ?mp = "''/tmp/tmpk3s9.rhel-8-iso''"
  let ?body = "\<lambda>mount_dir::string. lift (Inl TypeError) :: unit prog"
  let ?W1 = "snd (mkdtemp ''.rhel-8-iso'' ?W0)"
  let ?W2 = "snd (run system [''mount'', ''-o'', ''loop'', ''/rhel8.iso'', ?mp] False ?W1)"
  have c: "components ?mp = [''tmp'', ''tmpk3s9.rhel-8-iso'']"
    by (simp add: components_def)
  have h1: "fst (mkdtemp ''.rhel-8-iso'' ?W0) = Inr ?mp"
    by (simp add: world_eval)
  have h2: "fst (run system [''mount'', ''-o'', ''loop'', ''/rhel8.iso'', ?mp] False ?W1) = Inr True"
    by (simp add: world_eval demo_image_def synthetic_image_def)
  have W2: "?W2 = ?W0\<lparr>root := Dir [(''tmp'', Dir [(''tmpk3s9.rhel-8-iso'', demo_image)]), (''srv'', Dir [])],
                       mounts := [([''tmp'', ''tmpk3s9.rhel-8-iso''], Dir [])],
                       tmp_names := [],
                       trace := [Exec [''mount'', ''-o'', ''loop'', ''/rhel8.iso'', ?mp] 0]\<rparr>"
    by (simp add: world_eval demo_image_def synthetic_image_def)
  have b: "?body ?mp ?W2 = (Inl (Raised TypeError), ?W2)"
    by (simp add: lift_def)
  have d: "map_of (mounts ?W2) (components ?mp) = Some (Dir []) \<and> busy ?W2 = 4 \<and>
      lookup (root ?W2) (components ?mp) \<noteq> None \<and>
      \<not> list_ex (\<lambda>m. prefix (fst m) (components ?mp)) (AList.delete (components ?mp) (mounts ?W2))"
    unfolding W2 c by (simp add: machine_def)
  note A = mount_scope_teardown [of ?W0 ?mp system "''/rhel8.iso''" True ?body ?W2 "Dir []",
             THEN conjunct1, THEN mp, OF conjI [OF h1 h2], unfolded Let_def]
  note D = mount_scope_teardown [of ?W0 ?mp system "''/rhel8.iso''" True ?body ?W2 "Dir []",
             THEN conjunct2, THEN conjunct2, THEN conjunct2, THEN conjunct1, THEN mp, OF d]
  have iso: "mount_iso system ''/rhel8.iso'' ?body ?W0 =
      (Inl (Raised TypeError),
       ?W2\<lparr>root := remove (store (root ?W2) (components ?mp) (Dir [])) (components ?mp),
            mounts := AList.delete (components ?mp) (mounts ?W2),
            busy := 0,
            trace := trace ?W2 @
              [Exec [''umount'', ?mp] 32, Sleep 0, Exec [''umount'', ?mp] 32, Sleep 1,
               Exec [''umount'', ?mp] 32, Sleep 2, Exec [''umount'', ?mp] 32, Sleep 3,
               Exec [''umount'', ?mp] 0, Rmdir ?mp]\<rparr>)"
    by (simp only: A b snd_conv fst_conv D prod.case sum.case)
  have e: "map_of (mounts (mounted_machine demo_image 7)) (components ''/tmp/mnt'') = Some (Dir [])
           \<and> 5 \<le> busy (mounted_machine demo_image 7)"
    by (simp add: mounted_machine_def components_def)
  note E = mount_scope_teardown [of ?W0 "''/tmp/mnt''" system "''/rhel8.iso''" True ?body
             "mounted_machine demo_image 7" "Dir []",
             THEN conjunct2, THEN conjunct2, THEN conjunct2, THEN conjunct2, THEN mp, OF e]
  have s4: "fst (teardown system ''/tmp/mnt'' (mounted_machine demo_image 7)) =
     Inl (Raised (OSError ''EBUSY'' [''tmp'', ''mnt'']))"
    by (simp add: E components_def)
  have s1: "fst (mount_iso system ''/rhel8.iso'' ?body ?W0) = Inl (Raised TypeError)"
    by (simp only: iso fst_conv)
  have s2: "sleeps (trace (snd (mount_iso system ''/rhel8.iso'' ?body ?W0))) = [0, 1, 2, 3]"
    unfolding iso snd_conv W2 by (simp add: sleeps_def machine_def)
  have s3: "root (snd (mount_iso system ''/rhel8.iso'' ?body ?W0)) = root ?W0"
    unfolding iso snd_conv W2 c by (simp add: machine_def)
  show ?thesis
    by (intro conjI h1 s1 s2 s3 s4)
qed

lemma sleeps_failures:
  "sleeps (concat (map (\<lambda>t. [Exec cmd rc, Sleep t]) ts) @ rest) = ts @ sleeps rest"
  by (induction ts) (simp_all add: sleeps_def)

lemma sleeps_between_failures:
  "sleeps_only_between_attempts
     (concat (map (\<lambda>t. [Exec cmd rc, Sleep t]) ts) @ Exec cmd2 rc2 # rest) =
   sleeps_only_between_attempts rest"
proof (induction ts)
  case Nil
  show ?case by simp
next
  case (Cons t ts)
  then show ?case by (cases ts) simp_all
qed

lemma sum_upt_le_10: "k \<le> 5 \<Longrightarrow> sum_list [0..<k] \<le> (10::nat)"
proof -
  assume "k \<le> 5"
  then consider "k = 0" | "k = 1" | "k = 2" | "k = 3" | "k = 4" | "k = 5" by arith
  then show ?thesis
  proof cases
    case 1 then show ?thesis by simp
  next
    case 2 then show ?thesis by simp
  next
    case 3 then show ?thesis by (simp add: eval_nat_numeral)
  next
    case 4 then show ?thesis by (simp add: eval_nat_numeral)
  next
    case 5 then show ?thesis by (simp add: eval_nat_numeral)
  next
    case 6 then show ?thesis by (simp add: eval_nat_numeral)
  qed
qed

lemma teardown_events_free:
  assumes "map_of (mounts w) (components mp) = Some covered" and "busy w < 5"
  shows "events_since w (snd (teardown system mp w)) =
           concat (map (\<lambda>t. [Exec [''umount'', mp] 32, Sleep t]) [0..<busy w])
           @ [Exec [''umount'', mp] 0, Rmdir mp]"
proof -
  have tk: "take (busy w) [0..<5] = [0..<busy w]"
    using assms(2) by (simp add: take_upt)
  let ?w1 = "w\<lparr>root := store (root w) (components mp) covered,
                       mounts := AList.delete (components mp) (mounts w),
                       busy := 0,
                       trace := trace w
                         @ concat (map (\<lambda>t. [Exec [''umount'', mp] 32, Sleep t]) (take (busy w) [0..<5]))
                         @ [Exec [''umount'', mp] 0]\<rparr>"
  have "umount_loop system mp [0..<5] w = (Inr (), ?w1)"
    using assms by (intro umount_loop_free) auto
  then have "teardown system mp w = os_rmdir mp ?w1"
    by (simp add: teardown_def bind_def)
  then show ?thesis
    using os_rmdir_trace [of mp ?w1] by (simp add: events_since_def tk)
qed

text \<open>
  C8, as stated, fails: with five failed attempts the loop sleeps five times, and the last
  sleep (4 seconds) follows the fifth attempt and precedes the directory removal, so it does
  not lie between two attempts.
\<close>

theorem sleep_after_last_attempt_counterexample:
  "events_since (mounted_machine demo_image 5)
     (snd (teardown system ''/tmp/mnt'' (mounted_machine demo_image 5))) =
     [Exec [''umount'', ''/tmp/mnt''] 32, Sleep 0, Exec [''umount'', ''/tmp/mnt''] 32, Sleep 1,
      Exec [''umount'', ''/tmp/mnt''] 32, Sleep 2, Exec [''umount'', ''/tmp/mnt''] 32, Sleep 3,
      Exec [''umount'', ''/tmp/mnt''] 32, Sleep 4, Rmdir ''/tmp/mnt''] \<and>
   \<not> sleeps_only_between_attempts
       (events_since (mounted_machine demo_image 5)
          (snd (teardown system ''/tmp/mnt'' (mounted_machine demo_image 5))))"
proof -
  have "map_of (mounts (mounted_machine demo_image 5)) (components ''/tmp/mnt'') = Some (Dir [])"
    "5 \<le> busy (mounted_machine demo_image 5)"
    by (simp_all add: mounted_machine_def components_def)
  from teardown_stuck [OF this]
  have "events_since (mounted_machine demo_image 5)
     (snd (teardown system ''/tmp/mnt'' (mounted_machine demo_image 5))) =
     [Exec [''umount'', ''/tmp/mnt''] 32, Sleep 0, Exec [''umount'', ''/tmp/mnt''] 32, Sleep 1,
      Exec [''umount'', ''/tmp/mnt''] 32, Sleep 2, Exec [''umount'', ''/tmp/mnt''] 32, Sleep 3,
      Exec [''umount'', ''/tmp/mnt''] 32, Sleep 4, Rmdir ''/tmp/mnt'']"
    by (simp add: events_since_def mounted_machine_def)
  then show ?thesis by simp
qed

text \<open>
  C8, amended.  While the image is mounted, the block sleeps after each failed attempt, for
  0, 1, 2, 3 and 4 seconds after the first to the fifth failure, at most 10 seconds in all.
  With fewer than five failures every sleep is followed by a further attempt and none
  follows the successful one; with five failures the sleeps add up to 10 seconds and the
  last one stands between the fifth attempt and the removal of the directory.
\<close>

theorem teardown_backoff:
  "map_of (mounts w) (components mp) = Some covered \<longrightarrow>
     (let evs = events_since w (snd (teardown system mp w))
      in sleeps evs = [0..<min (busy w) 5] \<and>
         sum_list (sleeps evs) \<le> 10 \<and>
         (busy w < 5 \<longrightarrow>
            evs = concat (map (\<lambda>t. [Exec [''umount'', mp] 32, Sleep t]) [0..<busy w])
                  @ [Exec [''umount'', mp] 0, Rmdir mp] \<and>
            sleeps_only_between_attempts evs) \<and>
         (5 \<le> busy w \<longrightarrow>
            evs = [Exec [''umount'', mp] 32, Sleep 0, Exec [''umount'', mp] 32, Sleep 1,
                   Exec [''umount'', mp] 32, Sleep 2, Exec [''umount'', mp] 32, Sleep 3,
                   Exec [''umount'', mp] 32, Sleep 4, Rmdir mp] \<and>
            sum_list (sleeps evs) = 10))"
proof
  assume m: "map_of (mounts w) (components mp) = Some covered"
  show "let evs = events_since w (snd (teardown system mp w))
      in sleeps evs = [0..<min (busy w) 5] \<and>
         sum_list (sleeps evs) \<le> 10 \<and>
         (busy w < 5 \<longrightarrow>
            evs = concat (map (\<lambda>t. [Exec [''umount'', mp] 32, Sleep t]) [0..<busy w])
                  @ [Exec [''umount'', mp] 0, Rmdir mp] \<and>
            sleeps_only_between_attempts evs) \<and>
         (5 \<le> busy w \<longrightarrow>
            evs = [Exec [''umount'', mp] 32, Sleep 0, Exec [''umount'', mp] 32, Sleep 1,
                   Exec [''umount'', mp] 32, Sleep 2, Exec [''umount'', mp] 32, Sleep 3,
                   Exec [''umount'', mp] 32, Sleep 4, Rmdir mp] \<and>
            sum_list (sleeps evs) = 10)"
  proof (cases "busy w < 5")
    case True
    have ev: "events_since w (snd (teardown system mp w)) =
           concat (map (\<lambda>t. [Exec [''umount'', mp] 32, Sleep t]) [0..<busy w])
           @ [Exec [''umount'', mp] 0, Rmdir mp]"
      using m True by (rule teardown_events_free)
    have sl: "sleeps (events_since w (snd (teardown system mp w))) = [0..<busy w]"
      unfolding ev sleeps_failures by (simp add: sleeps_def)
    have bt: "sleeps_only_between_attempts (events_since w (snd (teardown system mp w)))"
      unfolding ev by (simp add: sleeps_between_failures)
    have "sum_list [0..<busy w] \<le> 10"
      using True by (intro sum_upt_le_10) simp
    with True ev sl bt show ?thesis
      by (simp add: Let_def min_def)
  next
    case False
    then have b: "5 \<le> busy w" by simp
    have ev: "events_since w (snd (teardown system mp w)) =
        [Exec [''umount'', mp] 32, Sleep 0, Exec [''umount'', mp] 32, Sleep 1,
         Exec [''umount'', mp] 32, Sleep 2, Exec [''umount'', mp] 32, Sleep 3,
         Exec [''umount'', mp] 32, Sleep 4, Rmdir mp]"
      using teardown_stuck [OF m b] by (simp add: events_since_def)
    have sl: "sleeps (events_since w (snd (teardown system mp w))) = [0, 1, 2, 3, 4]"
      unfolding ev by (simp add: sleeps_def)
    from b ev sl show ?thesis
      by (simp add: Let_def min_def upt5 del: upt_Suc)
  qed
qed

theorem teardown_backoff_witness:
  "map_of (mounts (mounted_machine demo_image 2)) (components ''/tmp/mnt'') = Some (Dir []) \<and>
   sleeps (events_since (mounted_machine demo_image 2)
             (snd (teardown system ''/tmp/mnt'' (mounted_machine demo_image 2)))) = [0, 1] \<and>
   sleeps (events_since (mounted_machine demo_image 9)
             (snd (teardown system ''/tmp/mnt'' (mounted_machine demo_image 9)))) = [0, 1, 2, 3, 4]"
proof -
  have m: "\<And>k. map_of (mounts (mounted_machine demo_image k)) (components ''/tmp/mnt'') = Some (Dir [])"
    by (simp add: mounted_machine_def components_def)
  have b: "busy (mounted_machine demo_image 2) = 2" "busy (mounted_machine demo_image 9) = 9"
    by (simp_all add: mounted_machine_def)
  note T2 = teardown_backoff [of "mounted_machine demo_image 2" "''/tmp/mnt''" "Dir []",
              THEN mp, OF m, unfolded Let_def, THEN conjunct1]
  note T9 = teardown_backoff [of "mounted_machine demo_image 9" "''/tmp/mnt''" "Dir []",
              THEN mp, OF m, unfolded Let_def, THEN conjunct1]
  have s2: "sleeps (events_since (mounted_machine demo_image 2)
             (snd (teardown system ''/tmp/mnt'' (mounted_machine demo_image 2)))) = [0, 1]"
    unfolding T2 b by (simp add: eval_nat_numeral)
  have s9: "sleeps (events_since (mounted_machine demo_image 9)
             (snd (teardown system ''/tmp/mnt'' (mounted_machine demo_image 9)))) = [0, 1, 2, 3, 4]"
    unfolding T9 b by (simp add: eval_nat_numeral)
  show ?thesis
    by (intro conjI m s2 s9)
qed

section \<open>The tree-info editors\<close>

lemma optionxform_keys:
  "optionxform ''variants'' = ''variants''" "optionxform ''variant'' = ''variant''"
  "optionxform ''repository'' = ''repository''" "optionxform ''packagedir'' = ''packagedir''"
  "optionxform ''packages'' = ''packages''" "optionxform ''arch'' = ''arch''"
  "optionxform ''platforms'' = ''platforms''"
  by (simp_all add: optionxform_def lower_def lower_char_def)

lemma in_sections_iff: "s \<in> set (cfg_sections ti) \<longleftrightarrow> map_of (sections ti) s \<noteq> None"
  by (simp add: cfg_sections_def map_of_eq_None_iff)

lemma fold_remove_section:
  "map_of (sections (fold remove_section xs ti)) =
     (\<lambda>k. if k \<in> set xs then None else map_of (sections ti) k) \<and>
   defaults (fold remove_section xs ti) = defaults ti \<and>
   set (cfg_sections (fold remove_section xs ti)) = set (cfg_sections ti) - set xs"
proof (induction xs arbitrary: ti)
  case Nil
  show ?case by simp
next
  case (Cons x xs)
  have "map_of (sections (remove_section x ti)) = (map_of (sections ti))(x := None)"
    "defaults (remove_section x ti) = defaults ti"
    "set (cfg_sections (remove_section x ti)) = set (cfg_sections ti) - {x}"
    by (simp_all add: remove_section_def delete_conv' cfg_sections_def delete_keys)
  with Cons [of "remove_section x ti"] show ?case
    by (auto simp: fun_eq_iff)
qed

lemma remove_missing_section: "s \<notin> set (cfg_sections ti) \<Longrightarrow> remove_section s ti = ti"
  by (simp add: remove_section_def cfg_sections_def)

lemmas cfg_eval =
  tweak_paths_def cfg_set_def cfg_get_def ebind_def remove_section_def optionxform_keys
  update_conv' delete_conv'

lemma baseos_edits_ok:
  assumes "map_of (sections ti) ''general'' = Some g" "map_of (sections ti) ''tree'' = Some t"
    "map_of (sections ti) ''variant-BaseOS'' = Some v"
  shows "\<exists>ti'. baseos_edits ti = Inr ti' \<and>
     map_of (sections ti') ''variant-AppStream'' = None \<and>
     map_of (sections ti') ''media'' = None \<and>
     cfg_get ''general'' ''variants'' ti' = Inr ''BaseOS'' \<and>
     cfg_get ''general'' ''variant'' ti' = Inr ''BaseOS'' \<and>
     cfg_get ''tree'' ''variants'' ti' = Inr ''BaseOS'' \<and>
     cfg_get ''general'' ''repository'' ti' = Inr ''.'' \<and>
     cfg_get ''variant-BaseOS'' ''repository'' ti' = Inr ''.'' \<and>
     cfg_get ''general'' ''packagedir'' ti' = Inr ''Packages'' \<and>
     cfg_get ''variant-BaseOS'' ''packages'' ti' = Inr ''Packages''"
  using assms by (simp add: baseos_edits_def cfg_eval)

lemma cfg_get_fold_remove:
  "s \<notin> set xs \<Longrightarrow> cfg_get s opt (fold remove_section xs ti) = cfg_get s opt ti"
  by (simp add: cfg_get_def fold_remove_section Let_def cong: option.case_cong)

lemma images_sections_iff:
  "s \<in> set (images_sections ti) \<longleftrightarrow> s \<in> set (cfg_sections ti) \<and> startswith s ''images-''"
  by (auto simp: images_sections_def)

lemma not_images:
  "\<not> startswith ''general'' ''images-''" "\<not> startswith ''tree'' ''images-''"
  "\<not> startswith ''variant-AppStream'' ''images-''"
  by (simp_all add: startswith_def)

lemma tweak_paths_appstream:
  assumes "map_of (sections ti) ''general'' = Some g" "map_of (sections ti) ''tree'' = Some t"
    "map_of (sections ti) ''variant-AppStream'' = Some v"
    "cfg_get ''general'' ''arch'' ti = Inr arch"
  shows "\<exists>ti1. tweak_paths ti ''AppStream'' True = Inr ti1 \<and>
     map_of (sections ti1) ''media'' = None \<and>
     cfg_get ''general'' ''variants'' ti1 = Inr ''AppStream'' \<and>
     cfg_get ''general'' ''variant'' ti1 = Inr ''AppStream'' \<and>
     cfg_get ''tree'' ''variants'' ti1 = Inr ''AppStream'' \<and>
     cfg_get ''general'' ''repository'' ti1 = Inr ''.'' \<and>
     cfg_get ''variant-AppStream'' ''repository'' ti1 = Inr ''.'' \<and>
     cfg_get ''general'' ''packagedir'' ti1 = Inr ''Packages'' \<and>
     cfg_get ''variant-AppStream'' ''packages'' ti1 = Inr ''Packages'' \<and>
     cfg_get ''general'' ''platforms'' ti1 = Inr arch \<and>
     cfg_get ''tree'' ''platforms'' ti1 = Inr arch"
  using assms by (auto simp: cfg_eval Let_def split: option.splits)

lemma write_config_ok:
  assumes "lookup (root w) (components file_path) = Some (File old)"
      and "\<not> readonly w (components file_path)"
  shows "write_config file_path ti w =
           (Inr (), w\<lparr>root := store (root w) (components file_path) (File (Ini ti))\<rparr>)"
    and "file_at (store (root w) (components file_path) (File (Ini ti))) (components file_path)
           = Some (Ini ti)"
proof -
  show "write_config file_path ti w =
           (Inr (), w\<lparr>root := store (root w) (components file_path) (File (Ini ti))\<rparr>)"
    using assms by (simp add: write_config_def writing_def write_file_def)
  have "lookup (store (root w) (components file_path) (File (Ini ti))) (components file_path)
          = Some (File (Ini ti))"
    using assms(1) by (intro lookup_store_same) simp
  then show "file_at (store (root w) (components file_path) (File (Ini ti))) (components file_path)
           = Some (Ini ti)"
    by (simp add: file_at_def)
qed

lemma baseos_edits_fail:
  "baseos_edits ti = Inl e \<Longrightarrow>
     (e = NoSectionError ''general'' \<and> ''general'' \<notin> set (cfg_sections ti)) \<or>
     (e = NoSectionError ''tree'' \<and> ''tree'' \<notin> set (cfg_sections ti)) \<or>
     (e = NoSectionError ''variant-BaseOS'' \<and> ''variant-BaseOS'' \<notin> set (cfg_sections ti))"
  by (auto simp: baseos_edits_def cfg_eval Let_def in_sections_iff split: option.splits if_splits)

lemma appstream_edits_fail:
  "appstream_edits ti = Inl e \<Longrightarrow>
     (e = NoSectionError ''general'' \<and> ''general'' \<notin> set (cfg_sections ti)) \<or>
     (e = NoSectionError ''tree'' \<and> ''tree'' \<notin> set (cfg_sections ti)) \<or>
     (e = NoSectionError ''variant-AppStream'' \<and> ''variant-AppStream'' \<notin> set (cfg_sections ti)) \<or>
     (e = NoOptionError ''arch'' ''general'' \<and> cfg_get ''general'' ''arch'' ti = Inl e)"
  by (auto simp: appstream_edits_def cfg_eval Let_def in_sections_iff split: option.splits if_splits)

lemma appstream_edits_ok:
  assumes "map_of (sections ti) ''general'' = Some g" "map_of (sections ti) ''tree'' = Some t"
    "map_of (sections ti) ''variant-AppStream'' = Some v"
    "cfg_get ''general'' ''arch'' ti = Inr arch"
  shows "\<exists>ti'. appstream_edits ti = Inr ti' \<and>
     ''variant-BaseOS'' \<notin> set (cfg_sections ti') \<and>
     ''checksums'' \<notin> set (cfg_sections ti') \<and>
     ''stage2'' \<notin> set (cfg_sections ti') \<and>
     ''media'' \<notin> set (cfg_sections ti') \<and>
     (\<forall>s \<in> set (cfg_sections ti'). \<not> startswith s ''images-'') \<and>
     cfg_get ''general'' ''platforms'' ti' = Inr arch \<and>
     cfg_get ''tree'' ''platforms'' ti' = Inr arch \<and>
     cfg_get ''general'' ''variants'' ti' = Inr ''AppStream'' \<and>
     cfg_get ''general'' ''variant'' ti' = Inr ''AppStream'' \<and>
     cfg_get ''tree'' ''variants'' ti' = Inr ''AppStream'' \<and>
     cfg_get ''general'' ''repository'' ti' = Inr ''.'' \<and>
     cfg_get ''variant-AppStream'' ''repository'' ti' = Inr ''.'' \<and>
     cfg_get ''general'' ''packagedir'' ti' = Inr ''Packages'' \<and>
     cfg_get ''variant-AppStream'' ''packages'' ti' = Inr ''Packages''"
proof -
  obtain ti1 where t: "tweak_paths ti ''AppStream'' True = Inr ti1"
     and media: "map_of (sections ti1) ''media'' = None"
     and gets: "cfg_get ''general'' ''variants'' ti1 = Inr ''AppStream''"
     "cfg_get ''general'' ''variant'' ti1 = Inr ''AppStream''"
     "cfg_get ''tree'' ''variants'' ti1 = Inr ''AppStream''"
     "cfg_get ''general'' ''repository'' ti1 = Inr ''.''"
     "cfg_get ''variant-AppStream'' ''repository'' ti1 = Inr ''.''"
     "cfg_get ''general'' ''packagedir'' ti1 = Inr ''Packages''"
     "cfg_get ''variant-AppStream'' ''packages'' ti1 = Inr ''Packages''"
     "cfg_get ''general'' ''platforms'' ti1 = Inr arch"
     "cfg_get ''tree'' ''platforms'' ti1 = Inr arch"
    using tweak_paths_appstream [OF assms] by blast
  let ?rm = "[''variant-BaseOS'', ''checksums'', ''stage2''] @ images_sections ti1"
  let ?ti' = "fold remove_section ?rm ti1"
  have e: "appstream_edits ti = Inr ?ti'"
    by (simp add: appstream_edits_def t ebind_def Let_def del: fold_simps)
  have names: "set (cfg_sections ?ti') = set (cfg_sections ti1) - set ?rm"
    using fold_remove_section [of ?rm ti1] by blast
  have keep: "''general'' \<notin> set ?rm" "''tree'' \<notin> set ?rm" "''variant-AppStream'' \<notin> set ?rm"
    by (simp_all add: images_sections_iff not_images)
  have m: "''media'' \<notin> set (cfg_sections ti1)"
    using media by (simp add: in_sections_iff)
  have im: "\<forall>s \<in> set (cfg_sections ?ti'). \<not> startswith s ''images-''"
    unfolding names by (auto simp: images_sections_iff)
  have "''variant-BaseOS'' \<notin> set (cfg_sections ?ti')" "''checksums'' \<notin> set (cfg_sections ?ti')"
     "''stage2'' \<notin> set (cfg_sections ?ti')" "''media'' \<notin> set (cfg_sections ?ti')"
    unfolding names using m by simp_all
  moreover note e im
  moreover have "cfg_get ''general'' ''platforms'' ?ti' = Inr arch"
     "cfg_get ''tree'' ''platforms'' ?ti' = Inr arch"
     "cfg_get ''general'' ''variants'' ?ti' = Inr ''AppStream''"
     "cfg_get ''general'' ''variant'' ?ti' = Inr ''AppStream''"
     "cfg_get ''tree'' ''variants'' ?ti' = Inr ''AppStream''"
     "cfg_get ''general'' ''repository'' ?ti' = Inr ''.''"
     "cfg_get ''variant-AppStream'' ''repository'' ?ti' = Inr ''.''"
     "cfg_get ''general'' ''packagedir'' ?ti' = Inr ''Packages''"
     "cfg_get ''variant-AppStream'' ''packages'' ?ti' = Inr ''Packages''"
    by (simp_all only: cfg_get_fold_remove [OF keep(1)] cfg_get_fold_remove [OF keep(2)]
          cfg_get_fold_remove [OF keep(3)] gets)
  ultimately show ?thesis by blast
qed

text \<open>
  C2.  For every tree-info document that has the sections \<open>general\<close>, \<open>tree\<close> and
  \<open>variant-BaseOS\<close> (without them the editor raises, see C9), the BaseOS edit succeeds
  and leaves a document with no \<open>variant-AppStream\<close> and no \<open>media\<close> section, in
  which \<open>general.variants\<close>, \<open>general.variant\<close> and \<open>tree.variants\<close> read BaseOS,
  \<open>general.repository\<close> and \<open>variant-BaseOS.repository\<close> read \<open>.\<close>, and
  \<open>general.packagedir\<close> and \<open>variant-BaseOS.packages\<close> read Packages; and
  \<open>tweak_baseos_treeinfo\<close>, on a writable file holding the document, changes nothing but
  that file, which then holds the edited document.
\<close>

theorem baseos_treeinfo_edit:
  "''general'' \<in> set (cfg_sections ti) \<and> ''tree'' \<in> set (cfg_sections ti) \<and>
   ''variant-BaseOS'' \<in> set (cfg_sections ti) \<longrightarrow>
     (\<exists>ti'. baseos_edits ti = Inr ti' \<and>
        ''variant-AppStream'' \<notin> set (cfg_sections ti') \<and>
        ''media'' \<notin> set (cfg_sections ti') \<and>
        cfg_get ''general'' ''variants'' ti' = Inr ''BaseOS'' \<and>
        cfg_get ''general'' ''variant'' ti' = Inr ''BaseOS'' \<and>
        cfg_get ''tree'' ''variants'' ti' = Inr ''BaseOS'' \<and>
        cfg_get ''general'' ''repository'' ti' = Inr ''.'' \<and>
        cfg_get ''variant-BaseOS'' ''repository'' ti' = Inr ''.'' \<and>
        cfg_get ''general'' ''packagedir'' ti' = Inr ''Packages'' \<and>
        cfg_get ''variant-BaseOS'' ''packages'' ti' = Inr ''Packages'' \<and>
        (file_at (root w) (components file_path) = Some (Ini ti) \<and>
         \<not> readonly w (components file_path) \<longrightarrow>
           tweak_baseos_treeinfo file_path w =
             (Inr (), w\<lparr>root := store (root w) (components file_path) (File (Ini ti'))\<rparr>) \<and>
           file_at (store (root w) (components file_path) (File (Ini ti'))) (components file_path)
             = Some (Ini ti')))"
proof
  assume "''general'' \<in> set (cfg_sections ti) \<and> ''tree'' \<in> set (cfg_sections ti) \<and>
   ''variant-BaseOS'' \<in> set (cfg_sections ti)"
  then obtain g t v where "map_of (sections ti) ''general'' = Some g"
    "map_of (sections ti) ''tree'' = Some t" "map_of (sections ti) ''variant-BaseOS'' = Some v"
    by (auto simp: in_sections_iff)
  from baseos_edits_ok [OF this] obtain ti' where e: "baseos_edits ti = Inr ti'"
    and p: "map_of (sections ti') ''variant-AppStream'' = None"
     "map_of (sections ti') ''media'' = None"
     "cfg_get ''general'' ''variants'' ti' = Inr ''BaseOS''"
     "cfg_get ''general'' ''variant'' ti' = Inr ''BaseOS''"
     "cfg_get ''tree'' ''variants'' ti' = Inr ''BaseOS''"
     "cfg_get ''general'' ''repository'' ti' = Inr ''.''"
     "cfg_get ''variant-BaseOS'' ''repository'' ti' = Inr ''.''"
     "cfg_get ''general'' ''packagedir'' ti' = Inr ''Packages''"
     "cfg_get ''variant-BaseOS'' ''packages'' ti' = Inr ''Packages''"
    by blast
  have io: "file_at (root w) (components file_path) = Some (Ini ti) \<and>
         \<not> readonly w (components file_path) \<longrightarrow>
           tweak_baseos_treeinfo file_path w =
             (Inr (), w\<lparr>root := store (root w) (components file_path) (File (Ini ti'))\<rparr>) \<and>
           file_at (store (root w) (components file_path) (File (Ini ti'))) (components file_path)
             = Some (Ini ti')"
  proof
    assume a: "file_at (root w) (components file_path) = Some (Ini ti) \<and>
         \<not> readonly w (components file_path)"
    then have l: "lookup (root w) (components file_path) = Some (File (Ini ti))"
      by (auto simp: file_at_def split: option.splits node.splits)
    have r: "read_config file_path w = (Inr ti, w)"
      by (simp add: read_config_def l)
    show "tweak_baseos_treeinfo file_path w =
             (Inr (), w\<lparr>root := store (root w) (components file_path) (File (Ini ti'))\<rparr>) \<and>
           file_at (store (root w) (components file_path) (File (Ini ti'))) (components file_path)
             = Some (Ini ti')"
      using write_config_ok [OF l, of ti'] a
      by (simp add: tweak_baseos_treeinfo_def bind_def r e lift_def)
  qed
  from e p io show "\<exists>ti'. baseos_edits ti = Inr ti' \<and>
        ''variant-AppStream'' \<notin> set (cfg_sections ti') \<and>
        ''media'' \<notin> set (cfg_sections ti') \<and>
        cfg_get ''general'' ''variants'' ti' = Inr ''BaseOS'' \<and>
        cfg_get ''general'' ''variant'' ti' = Inr ''BaseOS'' \<and>
        cfg_get ''tree'' ''variants'' ti' = Inr ''BaseOS'' \<and>
        cfg_get ''general'' ''repository'' ti' = Inr ''.'' \<and>
        cfg_get ''variant-BaseOS'' ''repository'' ti' = Inr ''.'' \<and>
        cfg_get ''general'' ''packagedir'' ti' = Inr ''Packages'' \<and>
        cfg_get ''variant-BaseOS'' ''packages'' ti' = Inr ''Packages'' \<and>
        (file_at (root w) (components file_path) = Some (Ini ti) \<and>
         \<not> readonly w (components file_path) \<longrightarrow>
           tweak_baseos_treeinfo file_path w =
             (Inr (), w\<lparr>root := store (root w) (components file_path) (File (Ini ti'))\<rparr>) \<and>
           file_at (store (root w) (components file_path) (File (Ini ti'))) (components file_path)
             = Some (Ini ti'))"
    by (intro exI [of _ ti']) (simp add: in_sections_iff)
qed

lemma tweak_appstream_io:
  assumes "file_at (root w) (components file_path) = Some (Ini ti)"
      and "\<not> readonly w (components file_path)"
      and "appstream_edits ti = Inr ti'"
  shows "tweak_appstream_treeinfo file_path w =
             (Inr (), w\<lparr>root := store (root w) (components file_path) (File (Ini ti'))\<rparr>) \<and>
           file_at (store (root w) (components file_path) (File (Ini ti'))) (components file_path)
             = Some (Ini ti')"
proof -
  have l: "lookup (root w) (components file_path) = Some (File (Ini ti))"
    using assms(1) by (auto simp: file_at_def split: option.splits node.splits)
  have r: "read_config file_path w = (Inr ti, w)"
    by (simp add: read_config_def l)
  show ?thesis
    using write_config_ok [OF l, of ti'] assms(2)
    by (simp add: tweak_appstream_treeinfo_def bind_def r assms(3) lift_def)
qed

text \<open>
  C3.  For every tree-info document that has the sections \<open>general\<close>, \<open>tree\<close> and
  \<open>variant-AppStream\<close> and from which \<open>general.arch\<close> can be read, the AppStream edit
  succeeds and leaves a document with no \<open>variant-BaseOS\<close>, \<open>checksums\<close>,
  \<open>stage2\<close> or \<open>media\<close> section and no section whose name starts with
  \<open>images-\<close>; \<open>general.platforms\<close> and \<open>tree.platforms\<close> read the original
  \<open>general.arch\<close>; the common rewrites hold with the variant name AppStream; and the
  result is written to the same path.
\<close>

theorem appstream_treeinfo_edit:
  "''general'' \<in> set (cfg_sections ti) \<and> ''tree'' \<in> set (cfg_sections ti) \<and>
   ''variant-AppStream'' \<in> set (cfg_sections ti) \<and>
   cfg_get ''general'' ''arch'' ti = Inr arch \<longrightarrow>
     (\<exists>ti'. appstream_edits ti = Inr ti' \<and>
        ''variant-BaseOS'' \<notin> set (cfg_sections ti') \<and>
        ''checksums'' \<notin> set (cfg_sections ti') \<and>
        ''stage2'' \<notin> set (cfg_sections ti') \<and>
        ''media'' \<notin> set (cfg_sections ti') \<and>
        (\<forall>s \<in> set (cfg_sections ti'). \<not> startswith s ''images-'') \<and>
        cfg_get ''general'' ''platforms'' ti' = Inr arch \<and>
        cfg_get ''tree'' ''platforms'' ti' = Inr arch \<and>
        cfg_get ''general'' ''variants'' ti' = Inr ''AppStream'' \<and>
        cfg_get ''general'' ''variant'' ti' = Inr ''AppStream'' \<and>
        cfg_get ''tree'' ''variants'' ti' = Inr ''AppStream'' \<and>
        cfg_get ''general'' ''repository'' ti' = Inr ''.'' \<and>
        cfg_get ''variant-AppStream'' ''repository'' ti' = Inr ''.'' \<and>
        cfg_get ''general'' ''packagedir'' ti' = Inr ''Packages'' \<and>
        cfg_get ''variant-AppStream'' ''packages'' ti' = Inr ''Packages'' \<and>
        (file_at (root w) (components file_path) = Some (Ini ti) \<and>
         \<not> readonly w (components file_path) \<longrightarrow>
           tweak_appstream_treeinfo file_path w =
             (Inr (), w\<lparr>root := store (root w) (components file_path) (File (Ini ti'))\<rparr>) \<and>
           file_at (store (root w) (components file_path) (File (Ini ti'))) (components file_path)
             = Some (Ini ti')))"
proof
  assume a: "''general'' \<in> set (cfg_sections ti) \<and> ''tree'' \<in> set (cfg_sections ti) \<and>
   ''variant-AppStream'' \<in> set (cfg_sections ti) \<and>
   cfg_get ''general'' ''arch'' ti = Inr arch"
  then obtain g t v where s: "map_of (sections ti) ''general'' = Some g"
    "map_of (sections ti) ''tree'' = Some t" "map_of (sections ti) ''variant-AppStream'' = Some v"
    by (auto simp: in_sections_iff)
  from a have arch: "cfg_get ''general'' ''arch'' ti = Inr arch" by simp
  from appstream_edits_ok [OF s arch] obtain ti' where e: "appstream_edits ti = Inr ti'"
    and p: "''variant-BaseOS'' \<notin> set (cfg_sections ti')"
     "''checksums'' \<notin> set (cfg_sections ti')"
     "''stage2'' \<notin> set (cfg_sections ti')"
     "''media'' \<notin> set (cfg_sections ti')"
     "\<forall>s \<in> set (cfg_sections ti'). \<not> startswith s ''images-''"
     "cfg_get ''general'' ''platforms'' ti' = Inr arch"
     "cfg_get ''tree'' ''platforms'' ti' = Inr arch"
     "cfg_get ''general'' ''variants'' ti' = Inr ''AppStream''"
     "cfg_get ''general'' ''variant'' ti' = Inr ''AppStream''"
     "cfg_get ''tree'' ''variants'' ti' = Inr ''AppStream''"
     "cfg_get ''general'' ''repository'' ti' = Inr ''.''"
     "cfg_get ''variant-AppStream'' ''repository'' ti' = Inr ''.''"
     "cfg_get ''general'' ''packagedir'' ti' = Inr ''Packages''"
     "cfg_get ''variant-AppStream'' ''packages'' ti' = Inr ''Packages''"
    by blast
  have io: "file_at (root w) (components file_path) = Some (Ini ti) \<and>
         \<not> readonly w (components file_path) \<longrightarrow>
           tweak_appstream_treeinfo file_path w =
             (Inr (), w\<lparr>root := store (root w) (components file_path) (File (Ini ti'))\<rparr>) \<and>
           file_at (store (root w) (components file_path) (File (Ini ti'))) (components file_path)
             = Some (Ini ti')"
    using tweak_appstream_io [of w file_path ti ti'] e by blast
  show "\<exists>ti'. appstream_edits ti = Inr ti' \<and>
        ''variant-BaseOS'' \<notin> set (cfg_sections ti') \<and>
        ''checksums'' \<notin> set (cfg_sections ti') \<and>
        ''stage2'' \<notin> set (cfg_sections ti') \<and>
        ''media'' \<notin> set (cfg_sections ti') \<and>
        (\<forall>s \<in> set (cfg_sections ti'). \<not> startswith s ''images-'') \<and>
        cfg_get ''general'' ''platforms'' ti' = Inr arch \<and>
        cfg_get ''tree'' ''platforms'' ti' = Inr arch \<and>
        cfg_get ''general'' ''variants'' ti' = Inr ''AppStream'' \<and>
        cfg_get ''general'' ''variant'' ti' = Inr ''AppStream'' \<and>
        cfg_get ''tree'' ''variants'' ti' = Inr ''AppStream'' \<and>
        cfg_get ''general'' ''repository'' ti' = Inr ''.'' \<and>
        cfg_get ''variant-AppStream'' ''repository'' ti' = Inr ''.'' \<and>
        cfg_get ''general'' ''packagedir'' ti' = Inr ''Packages'' \<and>
        cfg_get ''variant-AppStream'' ''packages'' ti' = Inr ''Packages'' \<and>
        (file_at (root w) (components file_path) = Some (Ini ti) \<and>
         \<not> readonly w (components file_path) \<longrightarrow>
           tweak_appstream_treeinfo file_path w =
             (Inr (), w\<lparr>root := store (root w) (components file_path) (File (Ini ti'))\<rparr>) \<and>
           file_at (store (root w) (components file_path) (File (Ini ti'))) (components file_path)
             = Some (Ini ti'))"
    by (intro exI [of _ ti'] conjI e p io)
qed

text \<open>
  C9.  Removing a section that is absent changes nothing.  The BaseOS editor succeeds
  exactly when \<open>general\<close>, \<open>tree\<close> and \<open>variant-BaseOS\<close> exist, the AppStream
  editor exactly when \<open>general\<close>, \<open>tree\<close> and \<open>variant-AppStream\<close> exist and
  \<open>general.arch\<close> can be read: no section to delete is among the conditions.  What the
  editors raise is the missing-section error of one of these three sections, or, in the
  AppStream path, the missing-option error of \<open>general.arch\<close>.
\<close>

theorem editors_lookup_failures:
  "(s \<notin> set (cfg_sections ti) \<longrightarrow> remove_section s ti = ti) \<and>
   ((\<exists>ti'. baseos_edits ti = Inr ti') \<longleftrightarrow>
      ''general'' \<in> set (cfg_sections ti) \<and> ''tree'' \<in> set (cfg_sections ti) \<and>
      ''variant-BaseOS'' \<in> set (cfg_sections ti)) \<and>
   ((\<exists>ti'. appstream_edits ti = Inr ti') \<longleftrightarrow>
      ''general'' \<in> set (cfg_sections ti) \<and> ''tree'' \<in> set (cfg_sections ti) \<and>
      ''variant-AppStream'' \<in> set (cfg_sections ti) \<and>
      (\<exists>arch. cfg_get ''general'' ''arch'' ti = Inr arch)) \<and>
   (\<forall>e. baseos_edits ti = Inl e \<longrightarrow>
      (\<exists>missing \<in> {''general'', ''tree'', ''variant-BaseOS''}.
         e = NoSectionError missing \<and> missing \<notin> set (cfg_sections ti))) \<and>
   (\<forall>e. appstream_edits ti = Inl e \<longrightarrow>
      (\<exists>missing \<in> {''general'', ''tree'', ''variant-AppStream''}.
         e = NoSectionError missing \<and> missing \<notin> set (cfg_sections ti)) \<or>
      (e = NoOptionError ''arch'' ''general'' \<and> cfg_get ''general'' ''arch'' ti = Inl e))"
proof (intro conjI)
  show "s \<notin> set (cfg_sections ti) \<longrightarrow> remove_section s ti = ti"
    by (simp add: remove_missing_section)
next
  show "(\<exists>ti'. baseos_edits ti = Inr ti') \<longleftrightarrow>
      ''general'' \<in> set (cfg_sections ti) \<and> ''tree'' \<in> set (cfg_sections ti) \<and>
      ''variant-BaseOS'' \<in> set (cfg_sections ti)"
  proof
    assume "\<exists>ti'. baseos_edits ti = Inr ti'"
    then show "''general'' \<in> set (cfg_sections ti) \<and> ''tree'' \<in> set (cfg_sections ti) \<and>
      ''variant-BaseOS'' \<in> set (cfg_sections ti)"
      by (auto simp: baseos_edits_def cfg_eval Let_def in_sections_iff
               split: option.splits if_splits)
  next
    assume "''general'' \<in> set (cfg_sections ti) \<and> ''tree'' \<in> set (cfg_sections ti) \<and>
      ''variant-BaseOS'' \<in> set (cfg_sections ti)"
    then obtain g t v where "map_of (sections ti) ''general'' = Some g"
      "map_of (sections ti) ''tree'' = Some t" "map_of (sections ti) ''variant-BaseOS'' = Some v"
      by (auto simp: in_sections_iff)
    from baseos_edits_ok [OF this] show "\<exists>ti'. baseos_edits ti = Inr ti'" by blast
  qed
next
  show "(\<exists>ti'. appstream_edits ti = Inr ti') \<longleftrightarrow>
      ''general'' \<in> set (cfg_sections ti) \<and> ''tree'' \<in> set (cfg_sections ti) \<and>
      ''variant-AppStream'' \<in> set (cfg_sections ti) \<and>
      (\<exists>arch. cfg_get ''general'' ''arch'' ti = Inr arch)"
  proof
    assume "\<exists>ti'. appstream_edits ti = Inr ti'"
    then show "''general'' \<in> set (cfg_sections ti) \<and> ''tree'' \<in> set (cfg_sections ti) \<and>
      ''variant-AppStream'' \<in> set (cfg_sections ti) \<and>
      (\<exists>arch. cfg_get ''general'' ''arch'' ti = Inr arch)"
      by (auto simp: appstream_edits_def cfg_eval Let_def in_sections_iff
               split: option.splits if_splits)
  next
    assume a: "''general'' \<in> set (cfg_sections ti) \<and> ''tree'' \<in> set (cfg_sections ti) \<and>
      ''variant-AppStream'' \<in> set (cfg_sections ti) \<and>
      (\<exists>arch. cfg_get ''general'' ''arch'' ti = Inr arch)"
    then obtain g t v arch where "map_of (sections ti) ''general'' = Some g"
      "map_of (sections ti) ''tree'' = Some t" "map_of (sections ti) ''variant-AppStream'' = Some v"
      "cfg_get ''general'' ''arch'' ti = Inr arch"
      by (auto simp: in_sections_iff)
    from appstream_edits_ok [OF this] show "\<exists>ti'. appstream_edits ti = Inr ti'" by blast
  qed
next
  show "\<forall>e. baseos_edits ti = Inl e \<longrightarrow>
      (\<exists>missing \<in> {''general'', ''tree'', ''variant-BaseOS''}.
         e = NoSectionError missing \<and> missing \<notin> set (cfg_sections ti))"
    using baseos_edits_fail [of ti] by blast
next
  show "\<forall>e. appstream_edits ti = Inl e \<longrightarrow>
      (\<exists>missing \<in> {''general'', ''tree'', ''variant-AppStream''}.
         e = NoSectionError missing \<and> missing \<notin> set (cfg_sections ti)) \<or>
      (e = NoOptionError ''arch'' ''general'' \<and> cfg_get ''general'' ''arch'' ti = Inl e)"
    using appstream_edits_fail [of ti] by blast
qed

lemma synthetic_sections:
  "cfg_sections synthetic_treeinfo =
     [''general'', ''tree'', ''variant-AppStream'', ''variant-BaseOS'', ''media'',
      ''images-x86_64'', ''stage2'', ''checksums'']"
  by (simp add: cfg_sections_def synthetic_treeinfo_def)

lemma synthetic_arch: "cfg_get ''general'' ''arch'' synthetic_treeinfo = Inr ''x86_64''"
  by (simp add: cfg_get_def synthetic_treeinfo_def optionxform_keys)

theorem baseos_treeinfo_edit_witness:
  "''general'' \<in> set (cfg_sections synthetic_treeinfo) \<and>
   ''tree'' \<in> set (cfg_sections synthetic_treeinfo) \<and>
   ''variant-BaseOS'' \<in> set (cfg_sections synthetic_treeinfo) \<and>
   ''variant-AppStream'' \<in> set (cfg_sections synthetic_treeinfo) \<and>
   (\<exists>ti'. baseos_edits synthetic_treeinfo = Inr ti' \<and>
      ''variant-AppStream'' \<notin> set (cfg_sections ti') \<and>
      cfg_get ''general'' ''repository'' ti' = Inr ''.'' \<and>
      tweak_baseos_treeinfo ''/srv/treeinfo''
        ((machine demo_image 0)
           \<lparr>root := Dir [(''srv'', Dir [(''treeinfo'', File (Ini synthetic_treeinfo))])]\<rparr>) =
        (Inr (), (machine demo_image 0)
           \<lparr>root := Dir [(''srv'', Dir [(''treeinfo'', File (Ini ti'))])]\<rparr>))"
proof -
  let ?w = "(machine demo_image 0)
           \<lparr>root := Dir [(''srv'', Dir [(''treeinfo'', File (Ini synthetic_treeinfo))])]\<rparr>"
  have c: "components ''/srv/treeinfo'' = [''srv'', ''treeinfo'']"
    by (simp add: components_def)
  have h: "''general'' \<in> set (cfg_sections synthetic_treeinfo) \<and>
   ''tree'' \<in> set (cfg_sections synthetic_treeinfo) \<and>
   ''variant-BaseOS'' \<in> set (cfg_sections synthetic_treeinfo)"
    by (simp add: synthetic_sections)
  have f: "file_at (root ?w) (components ''/srv/treeinfo'') = Some (Ini synthetic_treeinfo) \<and>
         \<not> readonly ?w (components ''/srv/treeinfo'')"
    by (simp add: c file_at_def readonly_def machine_def)
  from baseos_treeinfo_edit [of synthetic_treeinfo ?w "''/srv/treeinfo''", THEN mp, OF h]
  obtain ti' where e: "baseos_edits synthetic_treeinfo = Inr ti'"
    and p: "''variant-AppStream'' \<notin> set (cfg_sections ti')"
      "cfg_get ''general'' ''repository'' ti' = Inr ''.''"
    and io: "file_at (root ?w) (components ''/srv/treeinfo'') = Some (Ini synthetic_treeinfo) \<and>
         \<not> readonly ?w (components ''/srv/treeinfo'') \<longrightarrow>
           tweak_baseos_treeinfo ''/srv/treeinfo'' ?w =
             (Inr (), ?w\<lparr>root := store (root ?w) (components ''/srv/treeinfo'') (File (Ini ti'))\<rparr>) \<and>
           file_at (store (root ?w) (components ''/srv/treeinfo'') (File (Ini ti')))
             (components ''/srv/treeinfo'') = Some (Ini ti')"
    by blast
  from io f have "tweak_baseos_treeinfo ''/srv/treeinfo'' ?w =
      (Inr (), ?w\<lparr>root := store (root ?w) (components ''/srv/treeinfo'') (File (Ini ti'))\<rparr>)"
    by blast
  then have t: "tweak_baseos_treeinfo ''/srv/treeinfo'' ?w =
      (Inr (), (machine demo_image 0)\<lparr>root := Dir [(''srv'', Dir [(''treeinfo'', File (Ini ti'))])]\<rparr>)"
    by (simp add: c machine_def)
  have "''variant-AppStream'' \<in> set (cfg_sections synthetic_treeinfo)"
    by (simp add: synthetic_sections)
  with h e p t show ?thesis by blast
qed

theorem appstream_treeinfo_edit_witness:
  "''general'' \<in> set (cfg_sections synthetic_treeinfo) \<and>
   ''tree'' \<in> set (cfg_sections synthetic_treeinfo) \<and>
   ''variant-AppStream'' \<in> set (cfg_sections synthetic_treeinfo) \<and>
   ''images-x86_64'' \<in> set (cfg_sections synthetic_treeinfo) \<and>
   cfg_get ''general'' ''arch'' synthetic_treeinfo = Inr ''x86_64'' \<and>
   cfg_get ''general'' ''platforms'' synthetic_treeinfo = Inr ''x86_64,xen'' \<and>
   (\<exists>ti'. appstream_edits synthetic_treeinfo = Inr ti' \<and>
      ''images-x86_64'' \<notin> set (cfg_sections ti') \<and>
      cfg_get ''general'' ''platforms'' ti' = Inr ''x86_64'' \<and>
      tweak_appstream_treeinfo ''/srv/treeinfo''
        ((machine demo_image 0)
           \<lparr>root := Dir [(''srv'', Dir [(''treeinfo'', File (Ini synthetic_treeinfo))])]\<rparr>) =
        (Inr (), (machine demo_image 0)
           \<lparr>root := Dir [(''srv'', Dir [(''treeinfo'', File (Ini ti'))])]\<rparr>))"
proof -
  let ?w = "(machine demo_image 0)
           \<lparr>root := Dir [(''srv'', Dir [(''treeinfo'', File (Ini synthetic_treeinfo))])]\<rparr>"
  have c: "components ''/srv/treeinfo'' = [''srv'', ''treeinfo'']"
    by (simp add: components_def)
  have h: "''general'' \<in> set (cfg_sections synthetic_treeinfo) \<and>
   ''tree'' \<in> set (cfg_sections synthetic_treeinfo) \<and>
   ''variant-AppStream'' \<in> set (cfg_sections synthetic_treeinfo) \<and>
   cfg_get ''general'' ''arch'' synthetic_treeinfo = Inr ''x86_64''"
    by (simp add: synthetic_sections synthetic_arch)
  have f: "file_at (root ?w) (components ''/srv/treeinfo'') = Some (Ini synthetic_treeinfo) \<and>
         \<not> readonly ?w (components ''/srv/treeinfo'')"
    by (simp add: c file_at_def readonly_def machine_def)
  from appstream_treeinfo_edit [of synthetic_treeinfo "''x86_64''" ?w "''/srv/treeinfo''", THEN mp, OF h]
  obtain ti' where e: "appstream_edits synthetic_treeinfo = Inr ti'"
    and p: "\<forall>s \<in> set (cfg_sections ti'). \<not> startswith s ''images-''"
      "cfg_get ''general'' ''platforms'' ti' = Inr ''x86_64''"
    and io: "file_at (root ?w) (components ''/srv/treeinfo'') = Some (Ini synthetic_treeinfo) \<and>
         \<not> readonly ?w (components ''/srv/treeinfo'') \<longrightarrow>
           tweak_appstream_treeinfo ''/srv/treeinfo'' ?w =
             (Inr (), ?w\<lparr>root := store (root ?w) (components ''/srv/treeinfo'') (File (Ini ti'))\<rparr>) \<and>
           file_at (store (root ?w) (components ''/srv/treeinfo'') (File (Ini ti')))
             (components ''/srv/treeinfo'') = Some (Ini ti')"
    by blast
  from io f have "tweak_appstream_treeinfo ''/srv/treeinfo'' ?w =
      (Inr (), ?w\<lparr>root := store (root ?w) (components ''/srv/treeinfo'') (File (Ini ti'))\<rparr>)"
    by blast
  then have t: "tweak_appstream_treeinfo ''/srv/treeinfo'' ?w =
      (Inr (), (machine demo_image 0)\<lparr>root := Dir [(''srv'', Dir [(''treeinfo'', File (Ini ti'))])]\<rparr>)"
    by (simp add: c machine_def)
  have i: "''images-x86_64'' \<notin> set (cfg_sections ti')"
    using p(1) by (auto simp: startswith_def)
  have o1: "''images-x86_64'' \<in> set (cfg_sections synthetic_treeinfo)"
    by (simp add: synthetic_sections)
  have o2: "cfg_get ''general'' ''platforms'' synthetic_treeinfo = Inr ''x86_64,xen''"
    by (simp add: cfg_get_def synthetic_treeinfo_def optionxform_keys)
  note o = o1 o2
  from h e p(2) t i o show ?thesis by blast
qed

theorem editors_lookup_failures_witness:
  "''nope'' \<notin> set (cfg_sections synthetic_treeinfo) \<and>
   remove_section ''nope'' synthetic_treeinfo = synthetic_treeinfo \<and>
   (\<exists>ti'. baseos_edits synthetic_treeinfo = Inr ti') \<and>
   (\<exists>ti'. appstream_edits synthetic_treeinfo = Inr ti') \<and>
   baseos_edits empty_config = Inl (NoSectionError ''general'') \<and>
   appstream_edits empty_config = Inl (NoSectionError ''general'') \<and>
   ''general'' \<notin> set (cfg_sections empty_config)"
proof -
  note T = editors_lookup_failures [of "''nope''" synthetic_treeinfo]
  note E = editors_lookup_failures [of "''nope''" empty_config]
  have n: "''nope'' \<notin> set (cfg_sections synthetic_treeinfo)"
    by (simp add: synthetic_sections)
  have r: "remove_section ''nope'' synthetic_treeinfo = synthetic_treeinfo"
    using T n by blast
  have b: "\<exists>ti'. baseos_edits synthetic_treeinfo = Inr ti'"
    using T by (simp add: synthetic_sections)
  have a: "\<exists>ti'. appstream_edits synthetic_treeinfo = Inr ti'"
    using T synthetic_arch by (simp add: synthetic_sections)
  have g: "''general'' \<notin> set (cfg_sections empty_config)"
    by (simp add: cfg_sections_def empty_config_def)
  have eb: "baseos_edits empty_config = Inl (NoSectionError ''general'')"
    by (simp add: baseos_edits_def cfg_eval empty_config_def)
  have ea: "appstream_edits empty_config = Inl (NoSectionError ''general'')"
    by (simp add: appstream_edits_def cfg_eval empty_config_def)
  from E eb have "\<exists>missing \<in> {''general'', ''tree'', ''variant-BaseOS''}.
      NoSectionError ''general'' = NoSectionError missing \<and> missing \<notin> set (cfg_sections empty_config)"
    by blast
  with n r b a g eb ea show ?thesis by blast
qed

section \<open>A complete run\<close>

lemmas fs_eval =
  world_eval shutil_copytree_def copytree_def filt_def scandir_def makedirs_def write_file_def
  shutil_copy_def read_file_def listdir_def os_listdir_def lift_def ret_def bind_def
  copy_boot_files_def copy_variant_def load_extra_files_def extra_files_of_def subscript_def
  iterate_def ebind_def basename_def lower_def lower_char_def synthetic_image_def
  synthetic_manifest_def Let_def

lemma file_values_objects:
  "map (\<lambda>obj. map_of obj ''file'') objs = map Some files \<Longrightarrow>
     file_values (map JObj objs) = Inr files"
proof (induction objs arbitrary: files)
  case Nil
  then show ?case by simp
next
  case (Cons obj objs)
  then obtain f fs where "files = f # fs" "map_of obj ''file'' = Some f"
    "map (\<lambda>obj. map_of obj ''file'') objs = map Some fs"
    by (cases files) auto
  with Cons.IH [of fs] show ?case
    by (simp add: ebind_def subscript_def)
qed

lemma synthetic_run_result:
  "baseos_edits ti = Inr tb \<Longrightarrow> appstream_edits ti = Inr ta \<Longrightarrow>
   main system prog [''/rhel8.iso'', ''/srv/out''] (machine (synthetic_image ti disc readme cfg) 0) =
     (Inr (),
      (machine (synthetic_image ti disc readme cfg) 0)
        \<lparr>root :=
           Dir [(''tmp'', Dir []),
                (''srv'',
                 Dir [(''out'',
                   Dir [(''appstream'',
                         Dir [(''kickstart'',
                           Dir [(''Packages'', Dir [(''a.rpm'', File (Text ''a''))]),
                                (''discinfo'', File disc),
                                (''treeinfo'', File (Ini ta)),
                                (''extra_files.json'', File (Json synthetic_manifest)),
                                (''README'', File readme)])]),
                        (''baseos'',
                         Dir [(''kickstart'',
                           Dir [(''Packages'', Dir [(''b.rpm'', File (Text ''b''))]),
                                (''discinfo'', File disc),
                                (''treeinfo'', File (Ini tb)),
                                (''extra_files.json'', File (Json synthetic_manifest)),
                                (''README'', File readme),
                                (''isolinux'', Dir [(''isolinux.cfg'', File cfg)])])])])])],
         tmp_names := [],
         trace := [Exec [''mount'', ''-o'', ''loop'', ''/rhel8.iso'', ''/tmp/tmpk3s9.rhel-8-iso''] 0,
                   Exec [''umount'', ''/tmp/tmpk3s9.rhel-8-iso''] 0,
                   Rmdir ''/tmp/tmpk3s9.rhel-8-iso'',
                   Exec [''chmod'', ''u+w'', ''-R'', ''/srv/out''] 0]\<rparr>)"
  by (simp add: fs_eval main_def mount_iso_def teardown_def upt5 os_rmdir_def sleep_def
        tweak_baseos_treeinfo_def tweak_appstream_treeinfo_def read_config_def write_config_def
        del: join_words.simps)

text \<open>
  C1.  The specification's scenario, for any payloads and any tree-info document that both
  editors accept: on a machine whose image \<open>/rhel8.iso\<close> holds the synthetic mount
  root, \<open>main\<close> with destination \<open>/srv/out\<close> returns normally;
  \<open>/srv/out/baseos/kickstart\<close> then holds treeinfo, discinfo, README, extra_files.json and
  isolinux/isolinux.cfg (and the variant's Packages), \<open>/srv/out/appstream/kickstart\<close>
  holds treeinfo, discinfo, README and extra_files.json (and Packages) but no isolinux; the
  hidden \<open>.discinfo\<close> and \<open>.treeinfo\<close> arrive under the names discinfo and treeinfo
  (the latter edited for its variant) and not under their hidden names.  For every manifest
  whose \<open>data\<close> array holds objects with a \<open>file\<close> key, the extra-files list is
  \<open>extra_files.json\<close> followed by those \<open>file\<close> values in order.
\<close>

theorem synthetic_run:
  "(baseos_edits ti = Inr tb \<and> appstream_edits ti = Inr ta \<longrightarrow>
     (let image = synthetic_image ti disc readme cfg;
          run = main system prog [''/rhel8.iso'', ''/srv/out''] (machine image 0);
          baseos = [''srv'', ''out'', ''baseos'', ''kickstart''];
          appstream = [''srv'', ''out'', ''appstream'', ''kickstart'']
      in fst run = Inr () \<and>
         names_in (root (snd run)) baseos =
           [''Packages'', ''discinfo'', ''treeinfo'', ''extra_files.json'', ''README'', ''isolinux''] \<and>
         names_in (root (snd run)) appstream =
           [''Packages'', ''discinfo'', ''treeinfo'', ''extra_files.json'', ''README''] \<and>
         file_at (root (snd run)) (baseos @ [''isolinux'', ''isolinux.cfg'']) = Some cfg \<and>
         \<not> exists (root (snd run)) (appstream @ [''isolinux'']) \<and>
         file_at (root (snd run)) (baseos @ [''discinfo'']) = file_at image [''.discinfo''] \<and>
         file_at (root (snd run)) (appstream @ [''discinfo'']) = file_at image [''.discinfo''] \<and>
         file_at (root (snd run)) (baseos @ [''treeinfo'']) = Some (Ini tb) \<and>
         file_at (root (snd run)) (appstream @ [''treeinfo'']) = Some (Ini ta) \<and>
         file_at (root (snd run)) (baseos @ [''README'']) = Some readme \<and>
         file_at (root (snd run)) (appstream @ [''README'']) = Some readme \<and>
         file_at (root (snd run)) (baseos @ [''extra_files.json'']) = Some (Json synthetic_manifest) \<and>
         file_at (root (snd run)) (appstream @ [''extra_files.json'']) = Some (Json synthetic_manifest) \<and>
         \<not> exists (root (snd run)) (baseos @ [''.discinfo'']) \<and>
         \<not> exists (root (snd run)) (baseos @ [''.treeinfo'']) \<and>
         \<not> exists (root (snd run)) (appstream @ [''.discinfo'']) \<and>
         \<not> exists (root (snd run)) (appstream @ [''.treeinfo'']))) \<and>
   (map_of manifest ''data'' = Some (JArr (map JObj objs)) \<and>
    map (\<lambda>obj. map_of obj ''file'') objs = map Some files \<longrightarrow>
      extra_files_of (JObj manifest) = Inr (JStr ''extra_files.json'' # files)) \<and>
   extra_files_of synthetic_manifest = Inr [JStr ''extra_files.json'', JStr ''README'']"
proof (intro conjI impI)
  assume "baseos_edits ti = Inr tb \<and> appstream_edits ti = Inr ta"
  then have r: "main system prog [''/rhel8.iso'', ''/srv/out'']
                  (machine (synthetic_image ti disc readme cfg) 0) = (Inr (),
      (machine (synthetic_image ti disc readme cfg) 0)
        \<lparr>root :=
           Dir [(''tmp'', Dir []),
                (''srv'',
                 Dir [(''out'',
                   Dir [(''appstream'',
                         Dir [(''kickstart'',
                           Dir [(''Packages'', Dir [(''a.rpm'', File (Text ''a''))]),
                                (''discinfo'', File disc),
                                (''treeinfo'', File (Ini ta)),
                                (''extra_files.json'', File (Json synthetic_manifest)),
                                (''README'', File readme)])]),
                        (''baseos'',
                         Dir [(''kickstart'',
                           Dir [(''Packages'', Dir [(''b.rpm'', File (Text ''b''))]),
                                (''discinfo'', File disc),
                                (''treeinfo'', File (Ini tb)),
                                (''extra_files.json'', File (Json synthetic_manifest)),
                                (''README'', File readme),
                                (''isolinux'', Dir [(''isolinux.cfg'', File cfg)])])])])])],
         tmp_names := [],
         trace := [Exec [''mount'', ''-o'', ''loop'', ''/rhel8.iso'', ''/tmp/tmpk3s9.rhel-8-iso''] 0,
                   Exec [''umount'', ''/tmp/tmpk3s9.rhel-8-iso''] 0,
                   Rmdir ''/tmp/tmpk3s9.rhel-8-iso'',
                   Exec [''chmod'', ''u+w'', ''-R'', ''/srv/out''] 0]\<rparr>)"
    using synthetic_run_result [of ti tb ta prog disc readme cfg] by blast
  show "let image = synthetic_image ti disc readme cfg;
          run = main system prog [''/rhel8.iso'', ''/srv/out''] (machine image 0);
          baseos = [''srv'', ''out'', ''baseos'', ''kickstart''];
          appstream = [''srv'', ''out'', ''appstream'', ''kickstart'']
      in fst run = Inr () \<and>
         names_in (root (snd run)) baseos =
           [''Packages'', ''discinfo'', ''treeinfo'', ''extra_files.json'', ''README'', ''isolinux''] \<and>
         names_in (root (snd run)) appstream =
           [''Packages'', ''discinfo'', ''treeinfo'', ''extra_files.json'', ''README''] \<and>
         file_at (root (snd run)) (baseos @ [''isolinux'', ''isolinux.cfg'']) = Some cfg \<and>
         \<not> exists (root (snd run)) (appstream @ [''isolinux'']) \<and>
         file_at (root (snd run)) (baseos @ [''discinfo'']) = file_at image [''.discinfo''] \<and>
         file_at (root (snd run)) (appstream @ [''discinfo'']) = file_at image [''.discinfo''] \<and>
         file_at (root (snd run)) (baseos @ [''treeinfo'']) = Some (Ini tb) \<and>
         file_at (root (snd run)) (appstream @ [''treeinfo'']) = Some (Ini ta) \<and>
         file_at (root (snd run)) (baseos @ [''README'']) = Some readme \<and>
         file_at (root (snd run)) (appstream @ [''README'']) = Some readme \<and>
         file_at (root (snd run)) (baseos @ [''extra_files.json'']) = Some (Json synthetic_manifest) \<and>
         file_at (root (snd run)) (appstream @ [''extra_files.json'']) = Some (Json synthetic_manifest) \<and>
         \<not> exists (root (snd run)) (baseos @ [''.discinfo'']) \<and>
         \<not> exists (root (snd run)) (baseos @ [''.treeinfo'']) \<and>
         \<not> exists (root (snd run)) (appstream @ [''.discinfo'']) \<and>
         \<not> exists (root (snd run)) (appstream @ [''.treeinfo''])"
    unfolding Let_def r fst_conv snd_conv
    by (simp add: names_in_def file_at_def exists_def synthetic_image_def)
next
  assume "map_of manifest ''data'' = Some (JArr (map JObj objs)) \<and>
    map (\<lambda>obj. map_of obj ''file'') objs = map Some files"
  then show "extra_files_of (JObj manifest) = Inr (JStr ''extra_files.json'' # files)"
    using file_values_objects [of objs files]
    by (simp add: extra_files_of_def subscript_def iterate_def ebind_def)
next
  show "extra_files_of synthetic_manifest = Inr [JStr ''extra_files.json'', JStr ''README'']"
    by (simp add: extra_files_of_def subscript_def iterate_def ebind_def synthetic_manifest_def)
qed

theorem synthetic_run_witness:
  "(\<exists>tb ta. baseos_edits synthetic_treeinfo = Inr tb \<and> appstream_edits synthetic_treeinfo = Inr ta) \<and>
   fst (main system ''prog'' [''/rhel8.iso'', ''/srv/out''] (machine demo_image 0)) = Inr () \<and>
   names_in (root (snd (main system ''prog'' [''/rhel8.iso'', ''/srv/out''] (machine demo_image 0))))
      [''srv'', ''out'', ''baseos'', ''kickstart''] =
     [''Packages'', ''discinfo'', ''treeinfo'', ''extra_files.json'', ''README'', ''isolinux''] \<and>
   names_in (root (snd (main system ''prog'' [''/rhel8.iso'', ''/srv/out''] (machine demo_image 0))))
      [''srv'', ''out'', ''appstream'', ''kickstart''] =
     [''Packages'', ''discinfo'', ''treeinfo'', ''extra_files.json'', ''README''] \<and>
   extra_files_of (JObj [(''data'', JArr (map JObj [[(''file'', JStr ''README'')]]))]) =
     Inr [JStr ''extra_files.json'', JStr ''README'']"
proof -
  have s: "map_of (sections synthetic_treeinfo) ''general'' =
             Some [(''arch'', ''x86_64''), (''platforms'', ''x86_64,xen''),
                   (''variants'', ''AppStream,BaseOS'')]"
    "map_of (sections synthetic_treeinfo) ''tree'' =
             Some [(''arch'', ''x86_64''), (''variants'', ''AppStream,BaseOS'')]"
    by (simp_all add: synthetic_treeinfo_def)
  have sb: "map_of (sections synthetic_treeinfo) ''variant-BaseOS'' = Some [(''id'', ''BaseOS'')]"
    by (simp add: synthetic_treeinfo_def)
  have sa: "map_of (sections synthetic_treeinfo) ''variant-AppStream'' = Some [(''id'', ''AppStream'')]"
    by (simp add: synthetic_treeinfo_def)
  obtain tb where tb: "baseos_edits synthetic_treeinfo = Inr tb"
    using baseos_edits_ok [OF s sb] by blast
  obtain ta where ta: "appstream_edits synthetic_treeinfo = Inr ta"
    using appstream_edits_ok [OF s sa synthetic_arch] by blast
  note T = synthetic_run [of synthetic_treeinfo tb ta "Text ''1565820500.123456''"
             "Text ''Read me.''" "Text ''default vesamenu.c32''" "''prog''"
             "[(''data'', JArr (map JObj [[(''file'', JStr ''README'')]]))]"
             "[[(''file'', JStr ''README'')]]" "[JStr ''README'']"]
  note R = T [THEN conjunct1, THEN mp, OF conjI [OF tb ta], unfolded Let_def,
              folded demo_image_def]
  have m: "map_of [(''data'', JArr (map JObj [[(''file'', JStr ''README'')]]))] ''data'' =
             Some (JArr (map JObj [[(''file'', JStr ''README'')]])) \<and>
           map (\<lambda>obj. map_of obj ''file'') [[(''file'', JStr ''README'')]] = map Some [JStr ''README'']"
    by simp
  note E = T [THEN conjunct2, THEN conjunct1, THEN mp, OF m]
  show ?thesis
    using tb ta by (intro conjI exI [of _ tb] exI [of _ ta] R [THEN conjunct1]
        R [THEN conjunct2, THEN conjunct1] R [THEN conjunct2, THEN conjunct2, THEN conjunct1] E)
qed

section \<open>The directory copier\<close>

lemma lookup_append:
  "lookup r (p @ q) = (case lookup r p of None \<Rightarrow> None | Some n \<Rightarrow> lookup n q)"
proof (induction r p rule: lookup.induct)
  case (1 n)
  show ?case by simp
next
  case (2 c name names)
  show ?case by simp
next
  case (3 es name names)
  then show ?case by (cases "map_of es name") simp_all
qed

lemma store_append:
  "lookup r p = Some n \<Longrightarrow> store r (p @ q) new = store r p (store n q new)"
proof (induction r p new arbitrary: n rule: store.induct)
  case (1 r new)
  then show ?case by simp
next
  case (2 c name names new)
  then show ?case by simp
next
  case (3 es name names new)
  then obtain child where c: "map_of es name = Some child" "lookup child names = Some n"
    by (cases "map_of es name") auto
  with 3 show ?case by simp
qed

lemma map_of_without:
  "map_of (map (\<lambda>e. (fst e, without x (snd e))) (filter (\<lambda>e. fst e \<noteq> x) es)) name =
     (if name = x then None else map_option (without x) (map_of es name))"
  by (induction es) auto

lemma lookup_without:
  "lookup (without x n) q =
     (if x \<in> set q then None else map_option (without x) (lookup n q))"
proof (induction n q rule: lookup.induct)
  case (1 n)
  show ?case by simp
next
  case (2 c name names)
  show ?case by simp
next
  case (3 es name names)
  show ?case
  proof (cases "map_of es name")
    case None
    then show ?thesis by (simp add: map_of_without)
  next
    case (Some child)
    with 3 [OF Some] show ?thesis by (simp add: map_of_without)
  qed
qed

lemma update_append_fresh:
  "name \<notin> fst ` set ds \<Longrightarrow> AList.update name c (ds @ [(name, b)]) = ds @ [(name, c)]"
  by (induction ds) auto

lemma update_update_same: "AList.update k v (AList.update k v' al) = AList.update k v al"
  by (induction al) auto

lemma store_store: "store (store r p b) p c = store r p c"
proof (induction r p b rule: store.induct)
  case (1 r n)
  show ?case by simp
next
  case (2 c name names n)
  show ?case by simp
next
  case (3 es name names n)
  show ?case
  proof (cases "map_of es name")
    case None
    then have "name \<notin> fst ` set es" by (simp add: map_of_eq_None_iff)
    with None show ?thesis
      by (cases names) (simp_all add: update_append_fresh map_add_def)
  next
    case (Some child)
    with 3 [OF Some] show ?thesis
      by (simp add: update_conv' update_update_same)
  qed
qed

lemma store_child_fresh:
  assumes "lookup r dst = Some (Dir ds)" and "map_of ds name = None"
  shows "store r (dst @ [name]) n = store r dst (Dir (ds @ [(name, n)]))"
  using assms by (simp add: store_append)

lemma lookup_child_fresh:
  assumes "lookup r dst = Some (Dir ds)" and "map_of ds name = None"
  shows "lookup r (dst @ [name]) = None"
  using assms by (simp add: lookup_append)

lemma store_child_present:
  assumes "lookup r dst = Some (Dir (ds @ [(name, old)]))" and "map_of ds name = None"
  shows "store r (dst @ [name]) n = store r dst (Dir (ds @ [(name, n)]))"
proof -
  have "name \<notin> fst ` set ds" using assms(2) by (simp add: map_of_eq_None_iff)
  then show ?thesis
    using assms by (simp add: store_append update_append_fresh map_add_def)
qed

lemma write_file_fresh:
  assumes "lookup r dst = Some (Dir ds)" and "map_of ds name = None"
  shows "write_file r (dst @ [name]) c = Inr (store r dst (Dir (ds @ [(name, File c)])))"
  using assms by (simp add: write_file_def lookup_child_fresh store_child_fresh)

lemma makedirs_fresh:
  assumes "lookup r dst = Some (Dir ds)" and "map_of ds name = None"
  shows "makedirs r (dst @ [name]) = Inr (store r dst (Dir (ds @ [(name, Dir [])])))"
  using assms
  by (simp add: makedirs_def ebind_def exists_def mkdir_def lookup_child_fresh store_child_fresh)

lemma store_lookup_id: "lookup r p = Some n \<Longrightarrow> store r p n = r"
proof (induction r p n rule: store.induct)
  case (1 r n)
  then show ?case by simp
next
  case (2 c name names n)
  then show ?case by simp
next
  case (3 es name names n)
  then obtain child where c: "map_of es name = Some child" "lookup child names = Some n"
    by (cases "map_of es name") auto
  with 3 show ?case by (simp add: update_triv)
qed

lemma entries_without_simps:
  "entries_without x [] = []"
  "entries_without x ((name, n) # es) =
     (if name = x then entries_without x es else (name, without x n) # entries_without x es)"
  by (simp_all add: entries_without_def)

lemma without_Dir: "without x (Dir es) = Dir (entries_without x es)"
  by (simp add: entries_without_def)

lemma copy_entries_filt:
  "ignore = filt \<Longrightarrow> ignored_names = [''TRANS.TBL''] \<Longrightarrow>
   distinct (map fst es) \<Longrightarrow> \<forall>e \<in> set es. wf_node (snd e) \<Longrightarrow>
   lookup r dst = Some (Dir ds) \<Longrightarrow> fst ` set es \<inter> fst ` set ds = {} \<Longrightarrow>
   copy_entries ignore ignored_names src es dst r =
     ([], store r dst (Dir (ds @ entries_without ''TRANS.TBL'' es)))"
proof (induction ignore ignored_names src es dst r arbitrary: ds rule: copy_entries.induct)
  case (1 ignore ignored_names src dst r)
  then show ?case by (simp add: entries_without_simps store_lookup_id)
next
  case (2 ignore ignored_names src name n entries dst r)
  note ig = \<open>ignore = filt\<close> \<open>ignored_names = [''TRANS.TBL'']\<close>
  have dist: "distinct (map fst entries)" "name \<notin> fst ` set entries"
    using "2.prems"(3) by auto
  have wf: "\<forall>e \<in> set entries. wf_node (snd e)" "wf_node n"
    using "2.prems"(4) by auto
  have look: "lookup r dst = Some (Dir ds)" by fact
  have fresh: "fst ` set entries \<inter> fst ` set ds = {}" "map_of ds name = None"
    using "2.prems"(6) by (auto simp: map_of_eq_None_iff)
  show ?case
  proof (cases "name = ''TRANS.TBL''")
    case True
    then have "name \<in> set ignored_names" using ig by simp
    from "2.IH"(1) [OF this ig dist(1) wf(1) look fresh(1)] True ig
    show ?thesis by (simp add: entries_without_simps)
  next
    case False
    then have nin: "name \<notin> set ignored_names" using ig by simp
    have rest: "\<And>new r2.
        r2 = store r dst (Dir (ds @ [(name, new)])) \<Longrightarrow>
        (case n of
               File c \<Rightarrow>
                 case write_file r (dst @ [name]) c of
                 Inl why \<Rightarrow> ([(dst @ [name], why)], r) | Inr x \<Rightarrow> ([], x)
               | Dir sub \<Rightarrow>
                   case makedirs r (dst @ [name]) of
                   Inl why \<Rightarrow> ([(dst @ [name], why)], r)
                   | Inr x \<Rightarrow>
                       copy_entries ignore
                        (ignore (src @ [name]) (map fst sub)) (src @ [name])
                        sub (dst @ [name]) x) = ([], r2) \<Longrightarrow>
        copy_entries ignore ignored_names src ((name, n) # entries) dst r =
          ([], store r dst (Dir (ds @ (name, new) # entries_without ''TRANS.TBL'' entries)))"
    proof -
      fix new r2
      assume r2: "r2 = store r dst (Dir (ds @ [(name, new)]))"
        and step: "(case n of
               File c \<Rightarrow>
                 case write_file r (dst @ [name]) c of
                 Inl why \<Rightarrow> ([(dst @ [name], why)], r) | Inr x \<Rightarrow> ([], x)
               | Dir sub \<Rightarrow>
                   case makedirs r (dst @ [name]) of
                   Inl why \<Rightarrow> ([(dst @ [name], why)], r)
                   | Inr x \<Rightarrow>
                       copy_entries ignore
                        (ignore (src @ [name]) (map fst sub)) (src @ [name])
                        sub (dst @ [name]) x) = ([], r2)"
      have l2: "lookup r2 dst = Some (Dir (ds @ [(name, new)]))"
        unfolding r2 using look by (intro lookup_store_same) simp
      have f2: "fst ` set entries \<inter> fst ` set (ds @ [(name, new)]) = {}"
        using fresh(1) dist(2) by auto
      from "2.IH"(3) [OF nin step [symmetric] ig dist(1) wf(1) l2 f2]
      have "copy_entries ignore ignored_names src entries dst r2 =
              ([], store r dst (Dir ((ds @ [(name, new)]) @ entries_without ''TRANS.TBL'' entries)))"
        unfolding r2 by (simp add: store_store)
      with nin step show "copy_entries ignore ignored_names src ((name, n) # entries) dst r =
          ([], store r dst (Dir (ds @ (name, new) # entries_without ''TRANS.TBL'' entries)))"
        by simp
    qed
    show ?thesis
    proof (cases n)
      case (File c)
      have "(case n of
               File c \<Rightarrow>
                 case write_file r (dst @ [name]) c of
                 Inl why \<Rightarrow> ([(dst @ [name], why)], r) | Inr x \<Rightarrow> ([], x)
               | Dir sub \<Rightarrow>
                   case makedirs r (dst @ [name]) of
                   Inl why \<Rightarrow> ([(dst @ [name], why)], r)
                   | Inr x \<Rightarrow>
                       copy_entries ignore
                        (ignore (src @ [name]) (map fst sub)) (src @ [name])
                        sub (dst @ [name]) x) = ([], store r dst (Dir (ds @ [(name, File c)])))"
        using File write_file_fresh [OF look fresh(2), of c] by simp
      from rest [OF refl this] File False show ?thesis
        by (simp add: entries_without_simps)
    next
      case (Dir sub)
      let ?r1 = "store r dst (Dir (ds @ [(name, Dir [])]))"
      have mk: "makedirs r (dst @ [name]) = Inr ?r1"
        using makedirs_fresh [OF look fresh(2)] .
      have l1: "lookup ?r1 dst = Some (Dir (ds @ [(name, Dir [])]))"
        using look by (intro lookup_store_same) simp
      have l1': "lookup ?r1 (dst @ [name]) = Some (Dir [])"
        using l1 fresh(2) by (simp add: lookup_append map_add_def)
      have wfs: "distinct (map fst sub)" "\<forall>e \<in> set sub. wf_node (snd e)"
        using wf(2) Dir by simp_all
      have igs: "ignore (src @ [name]) (map fst sub) = [''TRANS.TBL'']"
        using ig by (simp add: filt_def)
      from "2.IH"(2) [OF nin Dir mk ig(1) igs wfs l1']
      have inner: "copy_entries ignore (ignore (src @ [name]) (map fst sub)) (src @ [name]) sub
                (dst @ [name]) ?r1 =
              ([], store ?r1 (dst @ [name]) (Dir (entries_without ''TRANS.TBL'' sub)))"
        by simp
      have "store ?r1 (dst @ [name]) (Dir (entries_without ''TRANS.TBL'' sub)) =
              store r dst (Dir (ds @ [(name, Dir (entries_without ''TRANS.TBL'' sub))]))"
        using store_child_present [OF l1 fresh(2)] by (simp add: store_store)
      with inner mk Dir have "(case n of
               File c \<Rightarrow>
                 case write_file r (dst @ [name]) c of
                 Inl why \<Rightarrow> ([(dst @ [name], why)], r) | Inr x \<Rightarrow> ([], x)
               | Dir sub \<Rightarrow>
                   case makedirs r (dst @ [name]) of
                   Inl why \<Rightarrow> ([(dst @ [name], why)], r)
                   | Inr x \<Rightarrow>
                       copy_entries ignore
                        (ignore (src @ [name]) (map fst sub)) (src @ [name])
                        sub (dst @ [name]) x) =
             ([], store r dst (Dir (ds @ [(name, Dir (entries_without ''TRANS.TBL'' sub))])))"
        by simp
      from rest [OF refl this] Dir False show ?thesis
        by (simp add: entries_without_simps without_Dir del: without.simps copy_entries.simps)
    qed
  qed
qed

lemma mkdir_created: "mkdir r p = Inr r' \<Longrightarrow> lookup r' p = Some (Dir [])"
proof -
  assume m: "mkdir r p = Inr r'"
  then have r': "r' = store r p (Dir [])" and none: "lookup r p = None"
    and par: "\<exists>es. lookup r (butlast p) = Some (Dir es)"
    by (auto simp: mkdir_def split: option.splits node.splits)
  have "p \<noteq> []" using none by (cases p) auto
  with par show ?thesis unfolding r' by (intro lookup_store_same) simp
qed

lemma makedirs_created: "makedirs r p = Inr r' \<Longrightarrow> lookup r' p = Some (Dir [])"
proof (cases "rev p")
  case Nil
  assume "makedirs r p = Inr r'"
  with Nil show ?thesis by (simp add: makedirs_def mkdir_def)
next
  case (Cons t rh)
  assume "makedirs r p = Inr r'"
  with Cons obtain r0 where "mkdir r0 (rev rh @ [t]) = Inr r'"
    by (auto simp: makedirs_def ebind_def split: sum.splits if_splits)
  moreover have "p = rev rh @ [t]" using Cons by (metis rev.simps(2) rev_rev_ident)
  ultimately show ?thesis using mkdir_created by simp
qed

lemma copytree_result:
  assumes "lookup (root w) (components src) = Some (Dir es)" and "wf_node (Dir es)"
      and "\<not> readonly w (components dst)"
      and "makedirs (root w) (components dst) = Inr r1"
  shows "copytree src dst w =
           (Inr (), w\<lparr>root := store r1 (components dst) (without ''TRANS.TBL'' (Dir es))\<rparr>)"
    and "lookup (store r1 (components dst) (without ''TRANS.TBL'' (Dir es))) (components dst) =
           Some (without ''TRANS.TBL'' (Dir es))"
proof -
  have l1: "lookup r1 (components dst) = Some (Dir [])"
    using assms(4) by (rule makedirs_created)
  have wf: "distinct (map fst es)" "\<forall>e \<in> set es. wf_node (snd e)"
    using assms(2) by simp_all
  have "copy_entries filt [''TRANS.TBL''] (components src) es (components dst) r1 =
          ([], store r1 (components dst) (Dir ([] @ entries_without ''TRANS.TBL'' es)))"
    using wf l1 by (intro copy_entries_filt) simp_all
  then show "copytree src dst w =
           (Inr (), w\<lparr>root := store r1 (components dst) (without ''TRANS.TBL'' (Dir es))\<rparr>)"
    using assms(1,3,4)
    by (simp add: copytree_def shutil_copytree_def scandir_def writing_def filt_def without_Dir
          del: without.simps)
  show "lookup (store r1 (components dst) (without ''TRANS.TBL'' (Dir es))) (components dst) =
           Some (without ''TRANS.TBL'' (Dir es))"
    using l1 by (intro lookup_store_same) simp
qed

lemma copytree_success:
  assumes "copytree src dst w = (Inr (), w')"
  shows "\<not> readonly w (components dst) \<and> (\<exists>r1. makedirs (root w) (components dst) = Inr r1)"
  using assms
  by (auto simp: copytree_def shutil_copytree_def writing_def
           split: sum.splits prod.splits if_splits)

lemmas copy_eval =
  world_eval shutil_copytree_def copytree_def filt_def scandir_def makedirs_def write_file_def
  ebind_def Let_def

text \<open>
  C5, as stated, fails: \<open>filt\<close> answers \<open>TRANS.TBL\<close> for every directory and
  \<open>shutil.copytree\<close> skips an entry by its name alone, so a directory named
  \<open>TRANS.TBL\<close> is skipped as well, with everything below it.  In the tree below the
  file \<open>TRANS.TBL/notes\<close> is an entry of the source other than a file named
  \<open>TRANS.TBL\<close>; the copy succeeds and the file is not in the destination.
\<close>

theorem trans_tbl_directory_counterexample:
  "fst (copytree ''/src'' ''/srv/copy'' legacy_machine) = Inr () \<and>
   names_in (root legacy_machine) [''src''] = [''Packages'', ''TRANS.TBL'', ''EULA''] \<and>
   names_in (root legacy_machine) [''src'', ''TRANS.TBL''] = [''notes''] \<and>
   file_at (root legacy_machine) [''src'', ''TRANS.TBL'', ''notes''] = Some (Text ''n'') \<and>
   names_in (root (snd (copytree ''/src'' ''/srv/copy'' legacy_machine))) [''srv'', ''copy''] =
     [''Packages'', ''EULA''] \<and>
   lookup (root (snd (copytree ''/src'' ''/srv/copy'' legacy_machine)))
     [''srv'', ''copy'', ''TRANS.TBL''] = None \<and>
   file_at (root (snd (copytree ''/src'' ''/srv/copy'' legacy_machine)))
     [''srv'', ''copy'', ''TRANS.TBL'', ''notes''] = None"
  by (simp add: copy_eval legacy_machine_def legacy_tree_def names_in_def file_at_def)

text \<open>
  C5, amended.  \<open>copytree\<close> of a directory whose entries have distinct names, to a
  destination outside the source: the copy succeeds as soon as the destination can be
  made, and then a path exists below the destination exactly when it exists below the
  source and none of its components is \<open>TRANS.TBL\<close>.  Files keep their content and
  directories stay directories; an entry named \<open>TRANS.TBL\<close>, file or directory, is
  absent at every level, with all that lies below it.
\<close>

theorem copytree_skips_trans_tbl:
  "lookup (root w) (components src) = Some (Dir es) \<and> wf_node (Dir es) \<and>
   \<not> prefix (components src) (components dst) \<longrightarrow>
     (\<not> readonly w (components dst) \<and> (\<exists>r1. makedirs (root w) (components dst) = Inr r1) \<longrightarrow>
        fst (copytree src dst w) = Inr ()) \<and>
     (copytree src dst w = (Inr (), w') \<longrightarrow>
        (\<forall>q. exists (root w') (components dst @ q) \<longleftrightarrow>
               exists (root w) (components src @ q) \<and> ''TRANS.TBL'' \<notin> set q) \<and>
        (\<forall>q. file_at (root w') (components dst @ q) =
               (if ''TRANS.TBL'' \<in> set q then None else file_at (root w) (components src @ q))) \<and>
        (\<forall>q. isdir (root w') (components dst @ q) \<longleftrightarrow>
               isdir (root w) (components src @ q) \<and> ''TRANS.TBL'' \<notin> set q))"
proof (intro impI conjI)
  assume a: "lookup (root w) (components src) = Some (Dir es) \<and> wf_node (Dir es) \<and>
   \<not> prefix (components src) (components dst)"
  assume "\<not> readonly w (components dst) \<and> (\<exists>r1. makedirs (root w) (components dst) = Inr r1)"
  then obtain r1 where "\<not> readonly w (components dst)" "makedirs (root w) (components dst) = Inr r1"
    by blast
  with a show "fst (copytree src dst w) = Inr ()"
    using copytree_result(1) [of w src es dst r1] by simp
next
  assume a: "lookup (root w) (components src) = Some (Dir es) \<and> wf_node (Dir es) \<and>
   \<not> prefix (components src) (components dst)"
  assume c: "copytree src dst w = (Inr (), w')"
  from copytree_success [OF c] obtain r1 where ro: "\<not> readonly w (components dst)"
    and mk: "makedirs (root w) (components dst) = Inr r1"
    by blast
  have src: "lookup (root w) (components src) = Some (Dir es)" and wf: "wf_node (Dir es)"
    using a by simp_all
  have w': "w' = w\<lparr>root := store r1 (components dst) (without ''TRANS.TBL'' (Dir es))\<rparr>"
    using copytree_result(1) [OF src wf ro mk] c by simp
  have d: "lookup (root w') (components dst) = Some (without ''TRANS.TBL'' (Dir es))"
    unfolding w' using copytree_result(2) [OF src wf ro mk] by simp
  have below: "\<And>q. lookup (root w') (components dst @ q) =
      (if ''TRANS.TBL'' \<in> set q then None
       else map_option (without ''TRANS.TBL'') (lookup (root w) (components src @ q)))"
    by (simp add: lookup_append d src lookup_without del: without.simps)
  show "\<forall>q. exists (root w') (components dst @ q) \<longleftrightarrow>
               exists (root w) (components src @ q) \<and> ''TRANS.TBL'' \<notin> set q"
    by (simp add: exists_def below)
  show "\<forall>q. file_at (root w') (components dst @ q) =
               (if ''TRANS.TBL'' \<in> set q then None else file_at (root w) (components src @ q))"
    by (auto simp: file_at_def below split: option.splits node.splits)
  show "\<forall>q. isdir (root w') (components dst @ q) \<longleftrightarrow>
               isdir (root w) (components src @ q) \<and> ''TRANS.TBL'' \<notin> set q"
    by (auto simp: isdir_def below split: option.splits node.splits)
qed

theorem copytree_skips_trans_tbl_witness:
  "lookup (root legacy_machine) (components ''/src'') = Some legacy_tree \<and>
   wf_node legacy_tree \<and>
   \<not> prefix (components ''/src'') (components ''/srv/copy'') \<and>
   \<not> readonly legacy_machine (components ''/srv/copy'') \<and>
   makedirs (root legacy_machine) (components ''/srv/copy'') =
     Inr (Dir [(''src'', legacy_tree), (''srv'', Dir [(''copy'', Dir [])])]) \<and>
   copytree ''/src'' ''/srv/copy'' legacy_machine =
     (Inr (), snd (copytree ''/src'' ''/srv/copy'' legacy_machine)) \<and>
   file_at (root (snd (copytree ''/src'' ''/srv/copy'' legacy_machine)))
     (components ''/srv/copy'' @ [''Packages'', ''a.rpm'']) = Some (Text ''a'') \<and>
   file_at (root (snd (copytree ''/src'' ''/srv/copy'' legacy_machine)))
     (components ''/srv/copy'' @ [''Packages'', ''TRANS.TBL'']) = None \<and>
   isdir (root (snd (copytree ''/src'' ''/srv/copy'' legacy_machine)))
     (components ''/srv/copy'' @ [''Packages''])"
  using copytree_skips_trans_tbl
    [of legacy_machine "''/src''"
        "[(''Packages'', Dir [(''a.rpm'', File (Text ''a'')), (''TRANS.TBL'', File (Text ''t''))]),
          (''TRANS.TBL'', Dir [(''notes'', File (Text ''n''))]),
          (''EULA'', File (Text ''e''))]"
        "''/srv/copy''" "snd (copytree ''/src'' ''/srv/copy'' legacy_machine)"]
  by (simp add: copy_eval legacy_machine_def legacy_tree_def file_at_def isdir_def)

end
